theory Spec2Isabelle
  imports Complex_Main "HOL-Library.Sublist" "HOL-Library.AList"
begin

section \<open>Data model\<close>

text \<open>
  The Python code passes dictionaries around. Each dictionary shape that occurs is a
  record whose fields are the keys the code reads; a key that may be absent is an
  \<open>option\<close> field (\<open>None\<close>: the key is not in the dictionary). Python \<open>str\<close> is
  \<open>string\<close>, Python \<open>int\<close> is \<open>int\<close>. The score of a search result is a Python float,
  which the code of the search results only stores and compares: it is a rational
  number (every finite float is one, and comparing floats is comparing their values).
\<close>

text \<open>The exceptions the modelled code can raise or catch.\<close>

datatype py_exception = KeyError string | Sqlite3Error | Exception string

text \<open>The \<open>metadata\<close> dictionary of a search result or of a retrieved chunk.\<close>

record metadata =
  m_source :: "string option"

text \<open>
  A Qdrant payload, as \<open>upsert_vectors\<close> stores it (keys \<open>text\<close>, \<open>pdf_name\<close>,
  \<open>page\<close>). \<open>get_context_for_rag\<close> hands payloads to the chatbot as its chunks, and
  the chatbot also looks for a \<open>metadata\<close> key in them.
\<close>

record payload =
  p_text :: "string option"
  p_pdf_name :: "string option"
  p_page :: "int option"
  p_metadata :: "metadata option"

text \<open>
  A search result dictionary: \<open>QdrantManager.search\<close> builds the keys \<open>id\<close>,
  \<open>payload\<close> and \<open>score\<close>; \<open>_combine_results\<close> and \<open>_filter_by_accessible_docs\<close>
  also read the keys \<open>text\<close> and \<open>metadata\<close>.
\<close>

record result =
  r_id :: "string option"
  r_payload :: "payload option"
  r_score :: "rat option"
  r_text :: "string option"
  r_metadata :: "metadata option"

section \<open>Access filters\<close>

text \<open>
  \<open>VectorStore._filter_by_accessible_docs\<close>, lines 180 to 185: the document name of a
  result is \<open>result['payload']['pdf_name']\<close> when both keys are present, otherwise
  \<open>result['metadata']['source']\<close> when both are present, otherwise \<open>None\<close>.
\<close>

definition result_doc_name :: "result \<Rightarrow> string option" where
  "result_doc_name res =
     (case r_payload res of
        Some p \<Rightarrow>
          (case p_pdf_name p of
             Some n \<Rightarrow> Some n
           | None \<Rightarrow> (case r_metadata res of Some m \<Rightarrow> m_source m | None \<Rightarrow> None))
      | None \<Rightarrow> (case r_metadata res of Some m \<Rightarrow> m_source m | None \<Rightarrow> None))"

text \<open>
  The test \<open>doc_name and doc_name in accessible_docs\<close>: \<open>None\<close> and the empty string
  are falsy.
\<close>

definition doc_permitted :: "string option \<Rightarrow> string list \<Rightarrow> bool" where
  "doc_permitted doc_name accessible_docs =
     (case doc_name of
        None \<Rightarrow> False
      | Some n \<Rightarrow> n \<noteq> [] \<and> n \<in> set accessible_docs)"

text \<open>\<open>VectorStore._filter_by_accessible_docs\<close>. The guard \<open>not accessible_docs\<close> holds
  for the empty list.\<close>

definition filter_by_accessible_docs :: "result list \<Rightarrow> string list \<Rightarrow> result list" where
  "filter_by_accessible_docs results accessible_docs =
     (if accessible_docs = [] then results
      else filter (\<lambda>res. doc_permitted (result_doc_name res) accessible_docs) results)"

text \<open>
  \<open>Chatbot._filter_chunks_by_access\<close>, lines 86 to 90: here \<open>metadata.source\<close> is read
  first and the chunk's own \<open>pdf_name\<close> second.
\<close>

definition chunk_doc_name :: "payload \<Rightarrow> string option" where
  "chunk_doc_name chunk =
     (case p_metadata chunk of
        Some m \<Rightarrow>
          (case m_source m of
             Some n \<Rightarrow> Some n
           | None \<Rightarrow> p_pdf_name chunk)
      | None \<Rightarrow> p_pdf_name chunk)"

definition filter_chunks_by_access :: "payload list \<Rightarrow> string list \<Rightarrow> payload list" where
  "filter_chunks_by_access chunks accessible_docs =
     (if accessible_docs = [] then chunks
      else filter (\<lambda>chunk. doc_permitted (chunk_doc_name chunk) accessible_docs) chunks)"

section \<open>Combining semantic and keyword results\<close>

text \<open>A row of the keyword index, as \<open>KeywordDatabase.search\<close> selects it:
  \<open>(id, text, pdf_name, page)\<close>.\<close>

type_synonym row = "string \<times> string \<times> string \<times> int"

text \<open>
  An element of the lists given to \<open>_combine_results\<close>: a dictionary, or something that
  is not a dictionary (the tuples \<open>sqlite3\<close> returns), which \<open>isinstance(result, dict)\<close>
  tells apart.
\<close>

datatype hit = Dict result | Row row

text \<open>\<open>result['score'] = result.get('score', d)\<close>\<close>

definition set_default_score :: "rat \<Rightarrow> result \<Rightarrow> result" where
  "set_default_score d res =
     res\<lparr>r_score := Some (case r_score res of Some s \<Rightarrow> s | None \<Rightarrow> d)\<rparr>"

text \<open>The two loops of lines 199 to 208: dictionaries get their default score and are
  appended, everything else is skipped.\<close>

fun add_scored :: "rat \<Rightarrow> hit list \<Rightarrow> result list" where
  "add_scored d [] = []"
| "add_scored d (Dict res # hits) = set_default_score d res # add_scored d hits"
| "add_scored d (Row r # hits) = add_scored d hits"

text \<open>\<open>result.get('text', '') or result.get('payload', {}).get('text', '')\<close>\<close>

definition content :: "result \<Rightarrow> string" where
  "content res =
     (let t = (case r_text res of Some t \<Rightarrow> t | None \<Rightarrow> [])
      in if t \<noteq> [] then t
         else (case r_payload res of
                 Some p \<Rightarrow> (case p_text p of Some t' \<Rightarrow> t' | None \<Rightarrow> [])
               | None \<Rightarrow> []))"

text \<open>
  The loop of lines 211 to 220. Python's \<open>hash\<close> on strings is seeded per process, so it
  is a parameter \<open>h\<close>; \<open>seen\<close> is the set of keys met so far.
\<close>

fun unique_results :: "(string \<Rightarrow> int) \<Rightarrow> int set \<Rightarrow> result list \<Rightarrow> result list" where
  "unique_results h seen [] = []"
| "unique_results h seen (res # rs) =
     (if h (content res) \<in> seen then unique_results h seen rs
      else res # unique_results h (insert (h (content res)) seen) rs)"

text \<open>\<open>x.get('score', 0)\<close>\<close>

definition score_or_zero :: "result \<Rightarrow> rat" where
  "score_or_zero res = (case r_score res of Some s \<Rightarrow> s | None \<Rightarrow> 0)"

text \<open>
  \<open>xs.sort(key=k, reverse=True)\<close> and \<open>sorted(xs, key=k, reverse=True)\<close>: Python's sort is
  stable, and with \<open>reverse=True\<close> elements with equal keys still keep their original
  order. Inserting each element, from the last to the first, in front of the first
  element whose key is not larger does exactly that. The keys are of any linearly
  ordered type.
\<close>

fun insert_reverse :: "('a \<Rightarrow> 'k::linorder) \<Rightarrow> 'a \<Rightarrow> 'a list \<Rightarrow> 'a list" where
  "insert_reverse k x [] = [x]"
| "insert_reverse k x (y # ys) =
     (if k y \<le> k x then x # y # ys else y # insert_reverse k x ys)"

definition sort_reverse :: "('a \<Rightarrow> 'k::linorder) \<Rightarrow> 'a list \<Rightarrow> 'a list" where
  "sort_reverse k xs = foldr (insert_reverse k) xs []"

text \<open>
  \<open>VectorStore._combine_results\<close>; the default scores 0.8 and 0.6 are \<open>4/5\<close> and
  \<open>3/5\<close>. With the element types above nothing in the \<open>try\<close> block can raise, so the
  \<open>except\<close> branch (which returns one of the input lists as it is) has no counterpart
  here. The source also writes the default score into the caller's dictionaries; only
  the returned list is modelled.
\<close>

definition combine_results :: "(string \<Rightarrow> int) \<Rightarrow> hit list \<Rightarrow> hit list \<Rightarrow> result list" where
  "combine_results h semantic_results keyword_results =
     (let combined = add_scored (4 / 5) semantic_results @ add_scored (3 / 5) keyword_results
      in sort_reverse score_or_zero (unique_results h {} combined))"

section \<open>Hybrid search\<close>

text \<open>
  The \<open>try\<close> block of \<open>VectorStore.hybrid_search\<close>, with the five calls it makes as
  parameters, each of which returns a value (\<open>Inr\<close>) or raises (\<open>Inl\<close>):
  \<open>search\<close> is \<open>self.qdrant.search\<close>, \<open>extract_keywords\<close> is
  \<open>self._extract_keywords_from_query\<close>, \<open>kw_search\<close> is \<open>self.keyword_db.search\<close>,
  \<open>combine\<close> is \<open>self._combine_results\<close> and \<open>filt\<close> is
  \<open>self._filter_by_accessible_docs\<close>. \<open>accessible_docs\<close> is \<open>None\<close> or a list.
\<close>

definition hybrid_search_try ::
  "(string \<Rightarrow> nat \<Rightarrow> py_exception + 'r list) \<Rightarrow> (string \<Rightarrow> py_exception + 'k) \<Rightarrow>
   ('k \<Rightarrow> nat \<Rightarrow> py_exception + 'w list) \<Rightarrow> ('r list \<Rightarrow> 'w list \<Rightarrow> py_exception + 'r list) \<Rightarrow>
   ('r list \<Rightarrow> 'd \<Rightarrow> py_exception + 'r list) \<Rightarrow> string \<Rightarrow> 'd option \<Rightarrow> py_exception + 'r list" where
  "hybrid_search_try search extract_keywords kw_search combine filt query accessible_docs =
     (let semantic_limit = 10; keyword_limit = 5 in
      case search query semantic_limit of
        Inl e \<Rightarrow> Inl e
      | Inr semantic_results \<Rightarrow>
          (case (if length semantic_results < 5 then
                   (case extract_keywords query of
                      Inl e \<Rightarrow> Inl e
                    | Inr keywords \<Rightarrow>
                        (case kw_search keywords keyword_limit of
                           Inl e \<Rightarrow> Inl e
                         | Inr keyword_results \<Rightarrow> combine semantic_results keyword_results))
                 else Inr semantic_results) of
             Inl e \<Rightarrow> Inl e
           | Inr combined_results \<Rightarrow>
               (case (case accessible_docs of
                        None \<Rightarrow> Inr combined_results
                      | Some docs \<Rightarrow> filt combined_results docs) of
                  Inl e \<Rightarrow> Inl e
                | Inr filtered_results \<Rightarrow> Inr (take 8 filtered_results))))"

text \<open>\<open>except Exception: return []\<close> around the whole body.\<close>

definition hybrid_search_with ::
  "(string \<Rightarrow> nat \<Rightarrow> py_exception + 'r list) \<Rightarrow> (string \<Rightarrow> py_exception + 'k) \<Rightarrow>
   ('k \<Rightarrow> nat \<Rightarrow> py_exception + 'w list) \<Rightarrow> ('r list \<Rightarrow> 'w list \<Rightarrow> py_exception + 'r list) \<Rightarrow>
   ('r list \<Rightarrow> 'd \<Rightarrow> py_exception + 'r list) \<Rightarrow> string \<Rightarrow> 'd option \<Rightarrow> 'r list" where
  "hybrid_search_with search extract_keywords kw_search combine filt query accessible_docs =
     (case hybrid_search_try search extract_keywords kw_search combine filt query accessible_docs of
        Inl e \<Rightarrow> []
      | Inr results \<Rightarrow> results)"

text \<open>A point as the Qdrant client returns it (\<open>.id\<close>, \<open>.payload\<close>, \<open>.score\<close>).\<close>

record scored_point =
  sp_id :: string
  sp_payload :: payload
  sp_score :: rat

text \<open>
  \<open>QdrantManager.search\<close>: \<open>client\<close> stands for encoding the query and searching the
  collection; whatever it raises is caught and the empty list returned.
\<close>

definition qdrant_search ::
  "(string \<Rightarrow> nat \<Rightarrow> py_exception + scored_point list) \<Rightarrow> string \<Rightarrow> nat \<Rightarrow> result list" where
  "qdrant_search client query limit =
     (case client query limit of
        Inl e \<Rightarrow> []
      | Inr results \<Rightarrow>
          map (\<lambda>p. \<lparr>r_id = Some (sp_id p), r_payload = Some (sp_payload p),
                     r_score = Some (sp_score p), r_text = None, r_metadata = None\<rparr>) results)"

text \<open>\<open>sep.join(xs)\<close>\<close>

fun join :: "string \<Rightarrow> string list \<Rightarrow> string" where
  "join sep [] = []"
| "join sep [x] = x"
| "join sep (x # y # ys) = x @ sep @ join sep (y # ys)"

text \<open>
  \<open>KeywordDatabase.search\<close>. \<open>cursor\<close> is what \<open>self.conn.cursor()\<close> does: it returns a
  cursor or raises (on a closed connection, say), and this happens before the \<open>try\<close>
  block, so that the exception leaves the function whatever its class. \<open>fts\<close> stands
  for \<open>cur.execute\<close> and \<open>cur.fetchall\<close> on the full-text query, inside the \<open>try\<close>
  block: of what they raise only \<open>sqlite3.Error\<close> is caught, and the empty list
  returned.
\<close>

definition keyword_db_search ::
  "py_exception + unit \<Rightarrow> (string \<Rightarrow> nat \<Rightarrow> py_exception + row list) \<Rightarrow> string list \<Rightarrow> nat \<Rightarrow>
   py_exception + row list" where
  "keyword_db_search cursor fts keywords limit =
     (case cursor of
        Inl e \<Rightarrow> Inl e
      | Inr cur \<Rightarrow>
          (case fts (join '' OR '' keywords) limit of
             Inl Sqlite3Error \<Rightarrow> Inr []
           | Inl e \<Rightarrow> Inl e
           | Inr rows \<Rightarrow> Inr rows))"

text \<open>
  \<open>VectorStore.hybrid_search\<close> on the repository's own steps: \<open>QdrantManager.search\<close> and
  \<open>_combine_results\<close> catch what is raised inside them, and the filter raises nothing
  on results of the type above. Keyword extraction (tokenisation by NLTK) stays a
  parameter \<open>extract_keywords\<close>, since no property below depends on the keywords it
  picks.
\<close>

definition hybrid_search ::
  "(string \<Rightarrow> int) \<Rightarrow> (string \<Rightarrow> nat \<Rightarrow> py_exception + scored_point list) \<Rightarrow>
   (string \<Rightarrow> py_exception + string list) \<Rightarrow> py_exception + unit \<Rightarrow>
   (string \<Rightarrow> nat \<Rightarrow> py_exception + row list) \<Rightarrow> string \<Rightarrow> string list option \<Rightarrow> result list" where
  "hybrid_search h client extract_keywords cursor fts query accessible_docs =
     hybrid_search_with
       (\<lambda>q limit. Inr (qdrant_search client q limit))
       extract_keywords
       (keyword_db_search cursor fts)
       (\<lambda>semantic_results keyword_results.
          Inr (combine_results h (map Dict semantic_results) (map Row keyword_results)))
       (\<lambda>results docs. Inr (filter_by_accessible_docs results docs))
       query accessible_docs"

section \<open>Reciprocal Rank Fusion\<close>

definition SIMILARITY_TOP_K :: nat where
  "SIMILARITY_TOP_K = 8"

text \<open>
  The scores of \<open>QdrantManager._fuse_results\<close> are Python floats, which the code
  divides, adds and compares. They are values of any linearly ordered type \<open>'s\<close> with
  an addition; the division \<open>1.0 / n\<close> is a parameter \<open>recip\<close> (\<open>recip n\<close> is \<open>1.0 / n\<close>),
  so that nothing is assumed about rounding.

  A value of the dictionary \<open>combined\<close> (keys \<open>score\<close>, \<open>payload\<close>, \<open>id\<close>):
\<close>

record 's fused =
  f_score :: 's
  f_payload :: payload
  f_id :: string

text \<open>
  The dictionary \<open>combined\<close> is an association list in insertion order, which is the
  order of \<open>combined.values()\<close>: assigning to a key that is present replaces its
  value in place, assigning to a new key appends (\<^const>\<open>AList.update\<close>).

  First loop, \<open>for rank, result in enumerate(vector_results, 1)\<close>.
\<close>

fun fuse_vector ::
  "(nat \<Rightarrow> 's) \<Rightarrow> nat \<Rightarrow> scored_point list \<Rightarrow> (string \<times> 's fused) list \<Rightarrow> (string \<times> 's fused) list" where
  "fuse_vector recip rank [] combined = combined"
| "fuse_vector recip rank (result # results) combined =
     fuse_vector recip (Suc rank) results
       (AList.update (sp_id result)
          \<lparr>f_score = recip (rank + 60), f_payload = sp_payload result, f_id = sp_id result\<rparr>
          combined)"

text \<open>Second loop, \<open>for rank, row in enumerate(keyword_results, 1)\<close>.\<close>

fun fuse_keyword ::
  "(nat \<Rightarrow> 's::plus) \<Rightarrow> nat \<Rightarrow> row list \<Rightarrow> (string \<times> 's fused) list \<Rightarrow> (string \<times> 's fused) list" where
  "fuse_keyword recip rank [] combined = combined"
| "fuse_keyword recip rank ((chunk_id, text, pdf_name, page) # rows) combined =
     fuse_keyword recip (Suc rank) rows
       (case map_of combined chunk_id of
          Some e \<Rightarrow>
            AList.update chunk_id (e\<lparr>f_score := f_score e + recip (rank + 60)\<rparr>) combined
        | None \<Rightarrow>
            AList.update chunk_id
              \<lparr>f_score = recip (rank + 60),
               f_payload = \<lparr>p_text = Some text, p_pdf_name = Some pdf_name,
                             p_page = Some page, p_metadata = None\<rparr>,
               f_id = chunk_id\<rparr> combined)"

text \<open>The dictionary after both loops, and its values sorted by score, highest first.\<close>

definition fuse_combined ::
  "(nat \<Rightarrow> 's::plus) \<Rightarrow> scored_point list \<Rightarrow> row list \<Rightarrow> (string \<times> 's fused) list" where
  "fuse_combined recip vector_results keyword_results =
     fuse_keyword recip 1 keyword_results (fuse_vector recip 1 vector_results [])"

definition fuse_sorted ::
  "(nat \<Rightarrow> 's::{plus,linorder}) \<Rightarrow> scored_point list \<Rightarrow> row list \<Rightarrow> 's fused list" where
  "fuse_sorted recip vector_results keyword_results =
     sort_reverse f_score (map snd (fuse_combined recip vector_results keyword_results))"

text \<open>\<open>QdrantManager._fuse_results\<close>\<close>

definition fuse_results ::
  "(nat \<Rightarrow> 's::{plus,linorder}) \<Rightarrow> scored_point list \<Rightarrow> row list \<Rightarrow> 's fused list" where
  "fuse_results recip vector_results keyword_results =
     take SIMILARITY_TOP_K (fuse_sorted recip vector_results keyword_results)"

text \<open>
  The fusion as the specification words it. The rank of a chunk in a list of
  identifiers is its 1-based position; the fused score of a chunk is the sum of
  \<open>1/(rank+60)\<close> over the lists in which it appears, and there is none for a chunk that
  appears in neither list.
\<close>

fun rank_from :: "nat \<Rightarrow> string list \<Rightarrow> string \<Rightarrow> nat option" where
  "rank_from r [] x = None"
| "rank_from r (y # ys) x = (if x = y then Some r else rank_from (Suc r) ys x)"

definition spec_fused_score ::
  "(nat \<Rightarrow> 's::plus) \<Rightarrow> scored_point list \<Rightarrow> row list \<Rightarrow> string \<Rightarrow> 's option" where
  "spec_fused_score recip vector_results keyword_results x =
     (case rank_from 1 (map sp_id vector_results) x of
        Some rv \<Rightarrow>
          (case rank_from 1 (map fst keyword_results) x of
             Some rk \<Rightarrow> Some (recip (rv + 60) + recip (rk + 60))
           | None \<Rightarrow> Some (recip (rv + 60)))
      | None \<Rightarrow>
          (case rank_from 1 (map fst keyword_results) x of
             Some rk \<Rightarrow> Some (recip (rk + 60))
           | None \<Rightarrow> None))"

section \<open>Chunking\<close>

definition MIN_SENTENCE_LENGTH :: nat where
  "MIN_SENTENCE_LENGTH = 5"

definition SENTENCES_PER_CHUNK :: nat where
  "SENTENCES_PER_CHUNK = 5"

text \<open>
  A string is a list of characters with code points below 256. \<open>str.split()\<close> and
  \<open>str.strip()\<close> cut at the characters for which \<open>str.isspace()\<close> holds; below 256 these
  are tab, line feed, vertical tab, form feed, carriage return, the four separators
  \<open>0x1C\<close> to \<open>0x1F\<close>, the space, next line (\<open>0x85\<close>) and the no-break space (\<open>0xA0\<close>).
\<close>

definition is_space :: "char \<Rightarrow> bool" where
  "is_space c =
     (c \<in> {CHR 0x09, CHR 0x0A, CHR 0x0B, CHR 0x0C, CHR 0x0D,
            CHR 0x1C, CHR 0x1D, CHR 0x1E, CHR 0x1F, CHR 0x20, CHR 0x85, CHR 0xA0})"

text \<open>\<open>s.split()\<close>: the maximal runs of non-whitespace characters; \<open>w\<close> is the run
  being read.\<close>

fun split_from :: "string \<Rightarrow> string \<Rightarrow> string list" where
  "split_from w [] = (if w = [] then [] else [w])"
| "split_from w (c # cs) =
     (if is_space c then (if w = [] then split_from [] cs else w # split_from [] cs)
      else split_from (w @ [c]) cs)"

definition str_split :: "string \<Rightarrow> string list" where
  "str_split s = split_from [] s"

text \<open>\<open>s.strip()\<close>\<close>

definition str_strip :: "string \<Rightarrow> string" where
  "str_strip s = rev (dropWhile is_space (rev (dropWhile is_space s)))"

text \<open>\<open>str(n)\<close> for an integer, as an f-string renders it.\<close>

fun str_nat :: "nat \<Rightarrow> string" where
  "str_nat n =
     (if n < 10 then [''0123456789'' ! n]
      else str_nat (n div 10) @ [''0123456789'' ! (n mod 10)])"

definition str_int :: "int \<Rightarrow> string" where
  "str_int i = (if i < 0 then CHR ''-'' # str_nat (nat (- i)) else str_nat (nat i))"

text \<open>\<open>range(start, stop, step)\<close> for a positive step (Python raises \<open>ValueError\<close> for
  step 0; the steps of \<open>chunk_text\<close> are the positive constants 5 and 25).\<close>

function range_step :: "nat \<Rightarrow> nat \<Rightarrow> nat \<Rightarrow> nat list" where
  "range_step start stop step =
     (if step = 0 \<or> stop \<le> start then [] else start # range_step (start + step) stop step)"
  by pat_completeness auto
termination
  by (relation "measure (\<lambda>(start, stop, step). stop - start)") auto

declare range_step.simps [simp del]

text \<open>A page as \<open>extract_text_from_pdf\<close> produces it, and a chunk as \<open>chunk_text\<close>
  produces it.\<close>

record page_entry =
  pg_pdf_name :: string
  pg_page :: int
  pg_text :: string

record chunk_metadata =
  cm_pdf_name :: string
  cm_page :: int
  cm_chunk_id :: string

record chunk =
  c_text :: string
  c_metadata :: chunk_metadata

text \<open>
  \<open>hashlib.md5(f"{page['pdf_name']}_{page['page']}_{i}".encode()).hexdigest()\<close>; the
  digest function \<open>md5_hex\<close> (encoding, hashing and hex rendering) is a parameter.
\<close>

definition chunk_id_of :: "(string \<Rightarrow> string) \<Rightarrow> page_entry \<Rightarrow> nat \<Rightarrow> string" where
  "chunk_id_of md5_hex pg i =
     md5_hex (pg_pdf_name pg @ ''_'' @ str_int (pg_page pg) @ ''_'' @ str_int (int i))"

text \<open>Lines 50 to 53 and 58 to 61: the chunk appended for offset \<open>i\<close>.\<close>

definition make_chunk :: "(string \<Rightarrow> string) \<Rightarrow> page_entry \<Rightarrow> nat \<Rightarrow> string \<Rightarrow> chunk" where
  "make_chunk md5_hex pg i txt =
     \<lparr>c_text = txt,
      c_metadata = \<lparr>cm_pdf_name = pg_pdf_name pg, cm_page = pg_page pg,
                     cm_chunk_id = chunk_id_of md5_hex pg i\<rparr>\<rparr>"

text \<open>\<open>[s for s in sentences if len(s.split()) >= Config.MIN_SENTENCE_LENGTH]\<close>\<close>

definition valid_sentences :: "string list \<Rightarrow> string list" where
  "valid_sentences sentences =
     filter (\<lambda>s. MIN_SENTENCE_LENGTH \<le> length (str_split s)) sentences"

text \<open>
  The body of the loop over pages in \<open>PDFProcessor.chunk_text\<close>. NLTK's sentence
  tokenizer is the parameter \<open>sent_tokenize\<close>. \<open>xs[i:i+n]\<close> is \<open>take n (drop i xs)\<close>.
\<close>

definition chunk_page ::
  "(string \<Rightarrow> string list) \<Rightarrow> (string \<Rightarrow> string) \<Rightarrow> page_entry \<Rightarrow> chunk list" where
  "chunk_page sent_tokenize md5_hex pg =
     (let valid = valid_sentences (sent_tokenize (pg_text pg)) in
      if valid = [] then
        (let words = str_split (pg_text pg);
             chunk_size = MIN_SENTENCE_LENGTH * SENTENCES_PER_CHUNK
         in map (\<lambda>i. make_chunk md5_hex pg i (join '' '' (take chunk_size (drop i words))))
              (range_step 0 (length words) chunk_size))
      else
        map (\<lambda>i. make_chunk md5_hex pg i (join '' '' (take SENTENCES_PER_CHUNK (drop i valid))))
          (range_step 0 (length valid) SENTENCES_PER_CHUNK))"

text \<open>\<open>PDFProcessor.chunk_text\<close>\<close>

definition chunk_text ::
  "(string \<Rightarrow> string list) \<Rightarrow> (string \<Rightarrow> string) \<Rightarrow> page_entry list \<Rightarrow> chunk list" where
  "chunk_text sent_tokenize md5_hex pages_text = concat (map (chunk_page sent_tokenize md5_hex) pages_text)"

section \<open>Embedding cache\<close>

text \<open>
  \<open>VectorStore._generate_embeddings\<close>, first loop. The embedding cache and the local
  dictionaries are maps; an embedding vector is a value of any type \<open>'v\<close>.
\<close>

fun split_cached ::
  "(string \<rightharpoonup> 'v) \<Rightarrow> chunk list \<Rightarrow> (string \<rightharpoonup> 'v) \<Rightarrow> string list \<Rightarrow> (string \<rightharpoonup> string) \<Rightarrow>
   (string \<rightharpoonup> 'v) \<times> string list \<times> (string \<rightharpoonup> string)" where
  "split_cached embedding_cache [] embeddings_map texts_to_embed chunks_to_embed_map =
     (embeddings_map, texts_to_embed, chunks_to_embed_map)"
| "split_cached embedding_cache (chunk # chunks) embeddings_map texts_to_embed chunks_to_embed_map =
     (let chunk_id = cm_chunk_id (c_metadata chunk) in
      case embedding_cache chunk_id of
        Some v \<Rightarrow>
          split_cached embedding_cache chunks (embeddings_map(chunk_id \<mapsto> v))
            texts_to_embed chunks_to_embed_map
      | None \<Rightarrow>
          split_cached embedding_cache chunks embeddings_map
            (texts_to_embed @ [c_text chunk]) (chunks_to_embed_map(c_text chunk \<mapsto> chunk_id)))"

text \<open>
  \<open>VectorStore._save_embedding\<close>: \<open>write chunk_id embedding\<close> tells whether writing the
  cache file succeeds; when it raises, the exception is logged and the cache in memory
  stays as it was.
\<close>

definition save_embedding ::
  "(string \<Rightarrow> 'v \<Rightarrow> bool) \<Rightarrow> (string \<rightharpoonup> 'v) \<Rightarrow> string \<Rightarrow> 'v \<Rightarrow> (string \<rightharpoonup> 'v)" where
  "save_embedding write embedding_cache chunk_id embedding =
     (if write chunk_id embedding then embedding_cache(chunk_id \<mapsto> embedding)
      else embedding_cache)"

text \<open>Second loop, over \<open>zip(texts_to_embed, new_embeddings)\<close>; it returns the exception
  raised, if any, with the dictionaries as they then are.\<close>

fun store_new ::
  "(string \<Rightarrow> 'v \<Rightarrow> bool) \<Rightarrow> (string \<rightharpoonup> string) \<Rightarrow> (string \<times> 'v) list \<Rightarrow> (string \<rightharpoonup> 'v) \<Rightarrow>
   (string \<rightharpoonup> 'v) \<Rightarrow> py_exception option \<times> (string \<rightharpoonup> 'v) \<times> (string \<rightharpoonup> 'v)" where
  "store_new write chunks_to_embed_map [] embeddings_map embedding_cache =
     (None, embeddings_map, embedding_cache)"
| "store_new write chunks_to_embed_map ((text, embedding) # rest) embeddings_map embedding_cache =
     (case chunks_to_embed_map text of
        None \<Rightarrow> (Some (KeyError text), embeddings_map, embedding_cache)
      | Some chunk_id \<Rightarrow>
          store_new write chunks_to_embed_map rest (embeddings_map(chunk_id \<mapsto> embedding))
            (save_embedding write embedding_cache chunk_id embedding))"

text \<open>\<open>[embeddings_map[chunk["metadata"]["chunk_id"]] for chunk in chunks]\<close>\<close>

fun lookup_all :: "(string \<rightharpoonup> 'v) \<Rightarrow> chunk list \<Rightarrow> py_exception + 'v list" where
  "lookup_all embeddings_map [] = Inr []"
| "lookup_all embeddings_map (chunk # chunks) =
     (case embeddings_map (cm_chunk_id (c_metadata chunk)) of
        None \<Rightarrow> Inl (KeyError (cm_chunk_id (c_metadata chunk)))
      | Some v \<Rightarrow>
          (case lookup_all embeddings_map chunks of
             Inl e \<Rightarrow> Inl e
           | Inr vs \<Rightarrow> Inr (v # vs)))"

text \<open>
  What a call of \<open>_generate_embeddings\<close> does: the list it returns or the exception it
  raises, the embedding cache afterwards, and the arguments of the calls of
  \<open>self.model.encode\<close> it made.
\<close>

record 'v embedding_run =
  returned :: "py_exception + 'v list"
  cache_after :: "string \<rightharpoonup> 'v"
  encode_calls :: "string list list"

text \<open>\<open>VectorStore._generate_embeddings\<close>; \<open>encode\<close> is \<open>self.model.encode\<close>.\<close>

definition generate_embeddings ::
  "(string list \<Rightarrow> py_exception + 'v list) \<Rightarrow> (string \<Rightarrow> 'v \<Rightarrow> bool) \<Rightarrow> (string \<rightharpoonup> 'v) \<Rightarrow>
   chunk list \<Rightarrow> 'v embedding_run" where
  "generate_embeddings encode write embedding_cache chunks =
     (case split_cached embedding_cache chunks Map.empty [] Map.empty of
        (embeddings_map, texts_to_embed, chunks_to_embed_map) \<Rightarrow>
          if texts_to_embed = [] then
            \<lparr>returned = lookup_all embeddings_map chunks, cache_after = embedding_cache,
             encode_calls = []\<rparr>
          else
            (case encode texts_to_embed of
               Inl e \<Rightarrow>
                 \<lparr>returned = Inl e, cache_after = embedding_cache,
                  encode_calls = [texts_to_embed]\<rparr>
             | Inr new_embeddings \<Rightarrow>
                 (case store_new write chunks_to_embed_map (zip texts_to_embed new_embeddings)
                         embeddings_map embedding_cache of
                    (Some e, embeddings_map', cache') \<Rightarrow>
                      \<lparr>returned = Inl e, cache_after = cache',
                       encode_calls = [texts_to_embed]\<rparr>
                  | (None, embeddings_map', cache') \<Rightarrow>
                      \<lparr>returned = lookup_all embeddings_map' chunks, cache_after = cache',
                       encode_calls = [texts_to_embed]\<rparr>)))"

section \<open>RAG chatbot\<close>

definition CONTEXT_CHUNKS_FOR_RAG :: nat where
  "CONTEXT_CHUNKS_FOR_RAG = 3"

text \<open>
  \<open>VectorStore.get_context_for_rag\<close>: \<open>vector_search\<close> stands for encoding the query,
  searching the collection and taking each point's payload.
\<close>

definition get_context_for_rag ::
  "(string \<Rightarrow> nat \<Rightarrow> py_exception + payload list) \<Rightarrow> string \<Rightarrow> payload list" where
  "get_context_for_rag vector_search query =
     (if query = [] \<or> str_strip query = [] then []
      else (case vector_search query CONTEXT_CHUNKS_FOR_RAG of
              Inl e \<Rightarrow> []
            | Inr payloads \<Rightarrow> payloads))"

text \<open>\<open>Config.RAG_PROMPT_TEMPLATE.format(context=context, question=question)\<close>\<close>

definition RAG_PROMPT_TEMPLATE :: "string \<Rightarrow> string \<Rightarrow> string" where
  "RAG_PROMPT_TEMPLATE context question =
      ''\<newline>'' @
      ''    **Task:** You are an intelligent assistant. Use the following context from the user's documents to answer their question.\<newline>'' @
      ''\<newline>'' @
      ''    **Context from Documents:**\<newline>'' @
      ''    ---\<newline>'' @
      ''    '' @ context @
      ''\<newline>'' @
      ''    ---\<newline>'' @
      ''\<newline>'' @
      ''    **User's Question:**\<newline>'' @
      ''    '' @ question @
      ''\<newline>'' @
      ''\<newline>'' @
      ''    **Instructions:**\<newline>'' @
      ''    1.  Base your answer strictly on the provided context.\<newline>'' @
      ''    2.  If the context does not contain the answer, state that you cannot find the information in the documents.\<newline>'' @
      ''    3.  Do not make up information or use external knowledge.\<newline>'' @
      ''    4.  Be concise and clear in your response.\<newline>'' @
      ''\<newline>'' @
      ''    **Answer:**\<newline>'' @
      ''    ''"

text \<open>\<open>context[:800] + "..." if len(context) > 800 else context\<close>\<close>

definition context_summary :: "string \<Rightarrow> string" where
  "context_summary context =
     (if length context > 800 then take 800 context @ ''...'' else context)"

text \<open>\<open>Chatbot._generate_fallback_response\<close>\<close>

definition generate_fallback_response :: "string \<Rightarrow> string \<Rightarrow> string" where
  "generate_fallback_response query context =
     ''Based on the available documents, here's what I found regarding your question: '' @
     [CHR 0x22] @ query @ [CHR 0x22] @ ''\<newline>\<newline>'' @
     context_summary context @ ''\<newline>\<newline>'' @
     ''This information is extracted directly from your documents. For more detailed AI-powered responses, please ensure Ollama is properly configured.''"

text \<open>\<open>[chunk['text'] for chunk in retrieved_chunks]\<close>: a chunk without the key raises.\<close>

fun chunk_texts :: "payload list \<Rightarrow> py_exception + string list" where
  "chunk_texts [] = Inr []"
| "chunk_texts (chunk # chunks) =
     (case p_text chunk of
        None \<Rightarrow> Inl (KeyError ''text'')
      | Some t \<Rightarrow>
          (case chunk_texts chunks of
             Inl e \<Rightarrow> Inl e
           | Inr ts \<Rightarrow> Inr (t # ts)))"

text \<open>
  \<open>Chatbot.generate_response\<close>, lines 42 to 65, on the chunks that are left after
  filtering. \<open>ollama_generate prompt\<close> is the call of the language model: it raises, or
  returns a response whose key \<open>response\<close> may be absent. The result is the pair
  (answer, source chunks), or the exception raised before the \<open>try\<close> block.
\<close>

definition answer_from_chunks ::
  "(string \<Rightarrow> py_exception + string option) \<Rightarrow> string \<Rightarrow> payload list \<Rightarrow>
   py_exception + (string \<times> payload list)" where
  "answer_from_chunks ollama_generate query retrieved_chunks =
     (case chunk_texts retrieved_chunks of
        Inl e \<Rightarrow> Inl e
      | Inr texts \<Rightarrow>
          let context_str = join ''\<newline>\<newline>---\<newline>\<newline>'' texts;
              prompt = RAG_PROMPT_TEMPLATE context_str query
          in (case ollama_generate prompt of
                Inr response \<Rightarrow>
                  Inr (str_strip (case response of
                                    Some t \<Rightarrow> t
                                  | None \<Rightarrow> ''Sorry, I encountered an error.''),
                       retrieved_chunks)
              | Inl e \<Rightarrow>
                  Inr (generate_fallback_response query context_str, retrieved_chunks)))"

text \<open>\<open>Chatbot.generate_response\<close>; \<open>accessible_docs\<close> is \<open>None\<close> or a list.\<close>

definition generate_response ::
  "(string \<Rightarrow> nat \<Rightarrow> py_exception + payload list) \<Rightarrow> (string \<Rightarrow> py_exception + string option) \<Rightarrow>
   string \<Rightarrow> string list option \<Rightarrow> py_exception + (string \<times> payload list)" where
  "generate_response vector_search ollama_generate query accessible_docs =
     (if query = [] then Inr (''Please ask a question.'', [])
      else
        let retrieved_chunks = get_context_for_rag vector_search query in
        if retrieved_chunks = [] then
          Inr (''I could not find any relevant information in your documents to answer this question.'', [])
        else
          (case accessible_docs of
             None \<Rightarrow> answer_from_chunks ollama_generate query retrieved_chunks
           | Some docs \<Rightarrow>
               let filtered_chunks = filter_chunks_by_access retrieved_chunks docs in
               if filtered_chunks = [] then
                 Inr (''I could not find any relevant information in your accessible documents to answer this question.'', [])
               else answer_from_chunks ollama_generate query filtered_chunks))"

section \<open>Example inputs\<close>

text \<open>
  Concrete stand-ins for the external collaborators (hash function, search backends,
  tokenizer, digest, embedding model, language model) and concrete inputs, on which
  the theorems below are instantiated and evaluated.
\<close>

definition length_hash :: "string \<Rightarrow> int" where
  "length_hash s = int (length s)"

text \<open>The division \<open>1 / n\<close> in exact rational arithmetic.\<close>

definition exact_reciprocal :: "nat \<Rightarrow> rat" where
  "exact_reciprocal n = 1 / of_nat n"

definition example_points :: "scored_point list" where
  "example_points =
     [\<lparr>sp_id = ''a'',
       sp_payload = \<lparr>p_text = Some ''alpha'', p_pdf_name = Some ''a.pdf'', p_page = Some 1,
                      p_metadata = None\<rparr>,
       sp_score = 9 / 10\<rparr>,
      \<lparr>sp_id = ''b'',
       sp_payload = \<lparr>p_text = Some ''beta'', p_pdf_name = Some ''b.pdf'', p_page = Some 1,
                      p_metadata = None\<rparr>,
       sp_score = 8 / 10\<rparr>,
      \<lparr>sp_id = ''c'',
       sp_payload = \<lparr>p_text = Some ''gamma'', p_pdf_name = Some ''a.pdf'', p_page = Some 2,
                      p_metadata = None\<rparr>,
       sp_score = 7 / 10\<rparr>,
      \<lparr>sp_id = ''d'',
       sp_payload = \<lparr>p_text = Some ''delta'', p_pdf_name = Some ''b.pdf'', p_page = Some 2,
                      p_metadata = None\<rparr>,
       sp_score = 6 / 10\<rparr>,
      \<lparr>sp_id = ''e'',
       sp_payload = \<lparr>p_text = Some ''epsilon'', p_pdf_name = Some ''a.pdf'', p_page = Some 3,
                      p_metadata = None\<rparr>,
       sp_score = 5 / 10\<rparr>]"

definition example_rows :: "row list" where
  "example_rows = [(''b'', ''beta'', ''b.pdf'', 1), (''k'', ''kappa'', ''k.pdf'', 7)]"

definition example_client :: "string \<Rightarrow> nat \<Rightarrow> py_exception + scored_point list" where
  "example_client query limit = Inr (take limit example_points)"

definition small_client :: "string \<Rightarrow> nat \<Rightarrow> py_exception + scored_point list" where
  "small_client query limit = Inr (take 2 example_points)"

definition example_extract :: "string \<Rightarrow> py_exception + string list" where
  "example_extract query = Inr [query]"

definition example_fts :: "string \<Rightarrow> nat \<Rightarrow> py_exception + row list" where
  "example_fts query limit = Inr (take limit example_rows)"

definition failing_fts :: "string \<Rightarrow> nat \<Rightarrow> py_exception + row list" where
  "failing_fts query limit = Inl (Exception ''database is closed'')"

definition empty_fts :: "string \<Rightarrow> nat \<Rightarrow> py_exception + row list" where
  "empty_fts query limit = Inr []"

text \<open>A connection that gives a cursor, and a closed one.\<close>

definition open_connection :: "py_exception + unit" where
  "open_connection = Inr ()"

definition closed_connection :: "py_exception + unit" where
  "closed_connection = Inl Sqlite3Error"

definition example_semantic :: "hit list" where
  "example_semantic =
     [Dict \<lparr>r_id = Some ''s1'',
            r_payload = Some \<lparr>p_text = Some ''alpha'', p_pdf_name = Some ''a.pdf'',
                               p_page = Some 1, p_metadata = None\<rparr>,
            r_score = None, r_text = None, r_metadata = None\<rparr>,
      Dict \<lparr>r_id = Some ''s2'',
            r_payload = Some \<lparr>p_text = Some ''beta'', p_pdf_name = Some ''b.pdf'',
                               p_page = Some 1, p_metadata = None\<rparr>,
            r_score = Some (9 / 10), r_text = None, r_metadata = None\<rparr>]"

definition example_keyword :: "hit list" where
  "example_keyword =
     [Row (''k0'', ''kappa'', ''k.pdf'', 7),
      Dict \<lparr>r_id = Some ''k1'', r_payload = None, r_score = None, r_text = Some ''alpha'',
            r_metadata = Some \<lparr>m_source = Some ''a.pdf''\<rparr>\<rparr>,
      Dict \<lparr>r_id = Some ''k2'', r_payload = None, r_score = None, r_text = Some ''lambda'',
            r_metadata = Some \<lparr>m_source = Some ''k.pdf''\<rparr>\<rparr>]"

text \<open>A tokenizer that ends a sentence at each full stop, and a stand-in for the
  digest.\<close>

fun sentences_from :: "string \<Rightarrow> string \<Rightarrow> string list" where
  "sentences_from s [] = (if s = [] then [] else [s])"
| "sentences_from s (c # cs) =
     (if c = CHR ''.'' then dropWhile is_space (s @ [c]) # sentences_from [] cs
      else sentences_from (s @ [c]) cs)"

definition period_tokenize :: "string \<Rightarrow> string list" where
  "period_tokenize t = sentences_from [] t"

definition example_digest :: "string \<Rightarrow> string" where
  "example_digest s = ''#'' @ s"

definition example_page :: page_entry where
  "example_page =
     \<lparr>pg_pdf_name = ''doc.pdf'', pg_page = 3,
      pg_text = ''a b c d e. f g h i j. k l m n o. p q r s t. u v w x y. z a b c d. too short.''\<rparr>"

definition example_page' :: page_entry where
  "example_page' =
     \<lparr>pg_pdf_name = ''doc.pdf'', pg_page = 3,
      pg_text = ''no sentence here''\<rparr>"

text \<open>The first example page with another text: same document name and page number.\<close>

definition revised_page :: page_entry where
  "revised_page =
     \<lparr>pg_pdf_name = ''doc.pdf'', pg_page = 3,
      pg_text = ''B c d e f. G h i j k. L m n o p. Q r s t u. V w x y z. A b c d e.''\<rparr>"

text \<open>A page whose only sentence has five words, the first three separated by a no-break
  space (\<open>0xA0\<close>) and a next-line character (\<open>0x85\<close>).\<close>

definition nbsp_page :: page_entry where
  "nbsp_page =
     \<lparr>pg_pdf_name = ''doc.pdf'', pg_page = 4,
      pg_text = ''one'' @ [CHR 0xA0] @ ''two'' @ [CHR 0x85] @ ''three four five.''\<rparr>"

definition example_chunks :: "payload list" where
  "example_chunks =
     [\<lparr>p_text = Some ''Revenue grew.'', p_pdf_name = Some ''report.pdf'', p_page = Some 2,
       p_metadata = None\<rparr>,
      \<lparr>p_text = Some ''Costs fell.'', p_pdf_name = Some ''notes.pdf'', p_page = Some 5,
       p_metadata = None\<rparr>]"

definition example_vector_search :: "string \<Rightarrow> nat \<Rightarrow> py_exception + payload list" where
  "example_vector_search query limit = Inr (take limit example_chunks)"

definition failing_ollama :: "string \<Rightarrow> py_exception + string option" where
  "failing_ollama prompt = Inl (Exception ''connection refused'')"

definition duplicate_text_chunks :: "chunk list" where
  "duplicate_text_chunks =
     [\<lparr>c_text = ''This page is intentionally left blank.'',
       c_metadata = \<lparr>cm_pdf_name = ''doc.pdf'', cm_page = 2, cm_chunk_id = ''id-page-2''\<rparr>\<rparr>,
      \<lparr>c_text = ''This page is intentionally left blank.'',
       c_metadata = \<lparr>cm_pdf_name = ''doc.pdf'', cm_page = 4, cm_chunk_id = ''id-page-4''\<rparr>\<rparr>]"

definition example_encode :: "string list \<Rightarrow> py_exception + rat list list" where
  "example_encode texts = Inr (map (\<lambda>t. [rat_of_nat (length t), 1]) texts)"

definition disk_ok :: "string \<Rightarrow> rat list \<Rightarrow> bool" where
  "disk_ok chunk_id embedding = True"

section \<open>Properties of the access filters\<close>

text \<open>
  C9. When the access-permitted list is the empty list, \<open>_filter_by_accessible_docs\<close> and
  \<open>_filter_chunks_by_access\<close> both return their input list unchanged: every result
  passes, whatever its source document.
\<close>

theorem empty_access_list_filters_nothing:
  "filter_by_accessible_docs results [] = results \<and> filter_chunks_by_access chunks [] = chunks"
  by (simp add: filter_by_accessible_docs_def filter_chunks_by_access_def)

text \<open>C9 at a concrete result and a concrete chunk of the document \<open>payroll.pdf\<close>.\<close>

theorem empty_access_list_filters_nothing_witness:
  "filter_by_accessible_docs
     [\<lparr>r_id = Some ''c1'',
       r_payload = Some \<lparr>p_text = Some ''salary table'', p_pdf_name = Some ''payroll.pdf'',
                          p_page = Some 2, p_metadata = None\<rparr>,
       r_score = Some (9 / 10), r_text = None, r_metadata = None\<rparr>] []
   = [\<lparr>r_id = Some ''c1'',
       r_payload = Some \<lparr>p_text = Some ''salary table'', p_pdf_name = Some ''payroll.pdf'',
                          p_page = Some 2, p_metadata = None\<rparr>,
       r_score = Some (9 / 10), r_text = None, r_metadata = None\<rparr>]
   \<and> filter_chunks_by_access
       [\<lparr>p_text = Some ''salary table'', p_pdf_name = Some ''payroll.pdf'',
         p_page = Some 2, p_metadata = None\<rparr>] []
     = [\<lparr>p_text = Some ''salary table'', p_pdf_name = Some ''payroll.pdf'',
         p_page = Some 2, p_metadata = None\<rparr>]"
  by (rule empty_access_list_filters_nothing)

text \<open>
  C3 as stated (for every permitted set, every element of the output has its document
  name in the set, and exactly the results outside the set are dropped) fails. With the
  empty permitted list a result of \<open>payroll.pdf\<close> is returned although \<open>payroll.pdf\<close>
  is not permitted; and a result whose document name is the empty string is dropped
  although the empty string is in the permitted list.
\<close>

theorem access_filter_counterexample:
  "filter_by_accessible_docs
     [\<lparr>r_id = Some ''c1'',
       r_payload = Some \<lparr>p_text = Some ''salary table'', p_pdf_name = Some ''payroll.pdf'',
                          p_page = Some 2, p_metadata = None\<rparr>,
       r_score = Some (9 / 10), r_text = None, r_metadata = None\<rparr>] []
   = [\<lparr>r_id = Some ''c1'',
       r_payload = Some \<lparr>p_text = Some ''salary table'', p_pdf_name = Some ''payroll.pdf'',
                          p_page = Some 2, p_metadata = None\<rparr>,
       r_score = Some (9 / 10), r_text = None, r_metadata = None\<rparr>]
   \<and> result_doc_name
        \<lparr>r_id = Some ''c1'',
         r_payload = Some \<lparr>p_text = Some ''salary table'', p_pdf_name = Some ''payroll.pdf'',
                          p_page = Some 2, p_metadata = None\<rparr>,
         r_score = Some (9 / 10), r_text = None, r_metadata = None\<rparr> = Some ''payroll.pdf''
   \<and> ''payroll.pdf'' \<notin> set ([] :: string list)
   \<and> filter_by_accessible_docs
       [\<lparr>r_id = Some ''c2'',
         r_payload = Some \<lparr>p_text = Some ''untitled'', p_pdf_name = Some '''',
                          p_page = Some 1, p_metadata = None\<rparr>,
         r_score = Some (1 / 2), r_text = None, r_metadata = None\<rparr>] ['''', ''a.pdf''] = []
   \<and> result_doc_name
        \<lparr>r_id = Some ''c2'',
         r_payload = Some \<lparr>p_text = Some ''untitled'', p_pdf_name = Some '''',
                          p_page = Some 1, p_metadata = None\<rparr>,
         r_score = Some (1 / 2), r_text = None, r_metadata = None\<rparr> = Some ''''
   \<and> '''' \<in> set ['''', ''a.pdf'']"
  by (simp add: filter_by_accessible_docs_def result_doc_name_def doc_permitted_def)

text \<open>
  C3, amended. For every non-empty permitted list, both filters keep exactly the
  elements whose document name is a non-empty string of the list: every element of the
  output has its document name in the list, and the output is a subsequence of the
  input. The document name is \<open>payload.pdf_name\<close>, else \<open>metadata.source\<close>, for
  \<open>_filter_by_accessible_docs\<close>, and \<open>metadata.source\<close>, else the chunk's \<open>pdf_name\<close>,
  for \<open>_filter_chunks_by_access\<close>.
\<close>

theorem access_filter_nonempty:
  assumes "accessible_docs \<noteq> []"
  shows "filter_by_accessible_docs results accessible_docs
           = filter (\<lambda>res. \<exists>n. result_doc_name res = Some n \<and> n \<noteq> [] \<and> n \<in> set accessible_docs) results
         \<and> (\<forall>res \<in> set (filter_by_accessible_docs results accessible_docs).
               \<exists>n. result_doc_name res = Some n \<and> n \<in> set accessible_docs)
         \<and> subseq (filter_by_accessible_docs results accessible_docs) results
         \<and> filter_chunks_by_access chunks accessible_docs
           = filter (\<lambda>c. \<exists>n. chunk_doc_name c = Some n \<and> n \<noteq> [] \<and> n \<in> set accessible_docs) chunks
         \<and> (\<forall>c \<in> set (filter_chunks_by_access chunks accessible_docs).
               \<exists>n. chunk_doc_name c = Some n \<and> n \<in> set accessible_docs)
         \<and> subseq (filter_chunks_by_access chunks accessible_docs) chunks"
proof -
  have p: "doc_permitted d accessible_docs = (\<exists>n. d = Some n \<and> n \<noteq> [] \<and> n \<in> set accessible_docs)" for d
    by (cases d) (simp_all add: doc_permitted_def)
  show ?thesis
    using assms by (auto simp add: filter_by_accessible_docs_def filter_chunks_by_access_def p)
qed

text \<open>C3, amended, on three results and two chunks with the permitted list
  \<open>[a.pdf]\<close>.\<close>

theorem access_filter_nonempty_witness:
  "[''a.pdf''] \<noteq> ([] :: string list)
   \<and> filter_by_accessible_docs
       [\<lparr>r_id = Some ''c1'',
         r_payload = Some \<lparr>p_text = Some ''alpha'', p_pdf_name = Some ''a.pdf'',
                            p_page = Some 1, p_metadata = None\<rparr>,
         r_score = Some (9 / 10), r_text = None, r_metadata = None\<rparr>,
        \<lparr>r_id = Some ''c2'',
         r_payload = Some \<lparr>p_text = Some ''beta'', p_pdf_name = Some ''b.pdf'',
                            p_page = Some 4, p_metadata = None\<rparr>,
         r_score = Some (7 / 10), r_text = None, r_metadata = None\<rparr>,
        \<lparr>r_id = Some ''c3'', r_payload = None, r_score = None, r_text = Some ''gamma'',
         r_metadata = Some \<lparr>m_source = Some ''a.pdf''\<rparr>\<rparr>]
       [''a.pdf'']
     = [\<lparr>r_id = Some ''c1'',
         r_payload = Some \<lparr>p_text = Some ''alpha'', p_pdf_name = Some ''a.pdf'',
                            p_page = Some 1, p_metadata = None\<rparr>,
         r_score = Some (9 / 10), r_text = None, r_metadata = None\<rparr>,
        \<lparr>r_id = Some ''c3'', r_payload = None, r_score = None, r_text = Some ''gamma'',
         r_metadata = Some \<lparr>m_source = Some ''a.pdf''\<rparr>\<rparr>]
   \<and> filter_chunks_by_access
       [\<lparr>p_text = Some ''alpha'', p_pdf_name = Some ''a.pdf'', p_page = Some 1, p_metadata = None\<rparr>,
        \<lparr>p_text = Some ''beta'', p_pdf_name = Some ''b.pdf'', p_page = Some 4, p_metadata = None\<rparr>]
       [''a.pdf'']
     = [\<lparr>p_text = Some ''alpha'', p_pdf_name = Some ''a.pdf'', p_page = Some 1, p_metadata = None\<rparr>]"
  using access_filter_nonempty [of "[''a.pdf'']"
      "[\<lparr>r_id = Some ''c1'',
         r_payload = Some \<lparr>p_text = Some ''alpha'', p_pdf_name = Some ''a.pdf'',
                            p_page = Some 1, p_metadata = None\<rparr>,
         r_score = Some (9 / 10), r_text = None, r_metadata = None\<rparr>,
        \<lparr>r_id = Some ''c2'',
         r_payload = Some \<lparr>p_text = Some ''beta'', p_pdf_name = Some ''b.pdf'',
                            p_page = Some 4, p_metadata = None\<rparr>,
         r_score = Some (7 / 10), r_text = None, r_metadata = None\<rparr>,
        \<lparr>r_id = Some ''c3'', r_payload = None, r_score = None, r_text = Some ''gamma'',
         r_metadata = Some \<lparr>m_source = Some ''a.pdf''\<rparr>\<rparr>]"
      "[\<lparr>p_text = Some ''alpha'', p_pdf_name = Some ''a.pdf'', p_page = Some 1, p_metadata = None\<rparr>,
        \<lparr>p_text = Some ''beta'', p_pdf_name = Some ''b.pdf'', p_page = Some 4, p_metadata = None\<rparr>]"]
  by (simp add: result_doc_name_def chunk_doc_name_def)

section \<open>Properties of hybrid search\<close>

lemma hybrid_search_with_length:
  "length (hybrid_search_with search extract_keywords kw_search combine filt query docs) \<le> 8"
  by (simp add: hybrid_search_with_def hybrid_search_try_def split: sum.splits option.splits)

text \<open>
  C8. \<open>hybrid_search\<close> returns a list of at most 8 elements and never raises: if the
  semantic search, the keyword extraction, the keyword search, the combination or the
  filter raises, it returns the empty list; otherwise it returns the first 8 elements
  of the combined (when fewer than 5 semantic results came back) and filtered (when a
  permitted list is given) results.
\<close>

theorem hybrid_search_never_raises_at_most_8:
  "length (hybrid_search_with search extract_keywords kw_search combine filt query docs) \<le> 8
   \<and> length (hybrid_search h client extract_keywords' cursor fts query docs') \<le> 8
   \<and> (\<forall>e. hybrid_search_try search extract_keywords kw_search combine filt query docs = Inl e \<longrightarrow>
          hybrid_search_with search extract_keywords kw_search combine filt query docs = [])
   \<and> (\<forall>e. search query 10 = Inl e \<longrightarrow>
          hybrid_search_with search extract_keywords kw_search combine filt query docs = [])
   \<and> (\<forall>sem. search query 10 = Inr sem \<longrightarrow>
          (length sem < 5 \<longrightarrow>
             (\<forall>e. extract_keywords query = Inl e \<longrightarrow>
                hybrid_search_with search extract_keywords kw_search combine filt query docs = [])
           \<and> (\<forall>kws. extract_keywords query = Inr kws \<longrightarrow>
                (\<forall>e. kw_search kws 5 = Inl e \<longrightarrow>
                   hybrid_search_with search extract_keywords kw_search combine filt query docs = [])
              \<and> (\<forall>rows. kw_search kws 5 = Inr rows \<longrightarrow>
                   (\<forall>e. combine sem rows = Inl e \<longrightarrow>
                      hybrid_search_with search extract_keywords kw_search combine filt query docs = [])
                 \<and> (\<forall>combined. combine sem rows = Inr combined \<longrightarrow>
                      (docs = None \<longrightarrow>
                         hybrid_search_with search extract_keywords kw_search combine filt query docs
                           = take 8 combined)
                    \<and> (\<forall>d. docs = Some d \<longrightarrow>
                         (\<forall>e. filt combined d = Inl e \<longrightarrow>
                            hybrid_search_with search extract_keywords kw_search combine filt query docs = [])
                       \<and> (\<forall>filtered. filt combined d = Inr filtered \<longrightarrow>
                            hybrid_search_with search extract_keywords kw_search combine filt query docs
                              = take 8 filtered))))))
        \<and> (5 \<le> length sem \<longrightarrow>
             (docs = None \<longrightarrow>
                hybrid_search_with search extract_keywords kw_search combine filt query docs = take 8 sem)
           \<and> (\<forall>d. docs = Some d \<longrightarrow>
                (\<forall>e. filt sem d = Inl e \<longrightarrow>
                   hybrid_search_with search extract_keywords kw_search combine filt query docs = [])
              \<and> (\<forall>filtered. filt sem d = Inr filtered \<longrightarrow>
                   hybrid_search_with search extract_keywords kw_search combine filt query docs
                     = take 8 filtered))))"
proof -
  have len: "length (hybrid_search_with search extract_keywords kw_search combine filt query docs) \<le> 8"
    by (rule hybrid_search_with_length)
  have len': "length (hybrid_search h client extract_keywords' cursor fts query docs') \<le> 8"
    unfolding hybrid_search_def by (rule hybrid_search_with_length)
  have rest: "(\<forall>e. hybrid_search_try search extract_keywords kw_search combine filt query docs = Inl e \<longrightarrow>
          hybrid_search_with search extract_keywords kw_search combine filt query docs = [])"
    by (simp add: hybrid_search_with_def)
  show ?thesis
    apply (intro conjI)
       apply (rule len)
      apply (rule len')
     apply (rule rest)
    apply (simp_all add: hybrid_search_with_def hybrid_search_try_def)
    done
qed

text \<open>C8 on steps over numbers: a keyword search that raises gives the empty list, and
  without an exception the first 8 of the 10 combined results are returned.\<close>

theorem hybrid_search_never_raises_at_most_8_witness:
  "hybrid_search_with
     (\<lambda>q limit. Inr [1, 2, 3 :: nat])
     (\<lambda>q. Inr [q])
     (\<lambda>keywords limit. (Inl (Exception ''database is closed'') :: py_exception + nat list))
     (\<lambda>semantic_results keyword_results. Inr (semantic_results @ keyword_results))
     (\<lambda>results docs. Inr (filter (\<lambda>r. r \<in> set docs) results))
     ''query'' (Some [1, 2 :: nat]) = []
   \<and> hybrid_search_with
     (\<lambda>q limit. Inr [1, 2, 3 :: nat])
     (\<lambda>q. Inr [q])
     (\<lambda>keywords limit. Inr [4, 5, 6, 7, 8, 9, 10 :: nat])
     (\<lambda>semantic_results keyword_results. Inr (semantic_results @ keyword_results))
     (\<lambda>results docs. Inr (filter (\<lambda>r. r \<in> set docs) results))
     ''query'' None = [1, 2, 3, 4, 5, 6, 7, 8]"
  using hybrid_search_never_raises_at_most_8 [where
     search = "\<lambda>q limit. Inr [1, 2, 3 :: nat]"
     and extract_keywords = "\<lambda>q. Inr [q]"
     and kw_search = "\<lambda>keywords limit. (Inl (Exception ''database is closed'') :: py_exception + nat list)"
     and combine = "\<lambda>semantic_results keyword_results. Inr (semantic_results @ keyword_results)"
     and filt = "\<lambda>results docs. Inr (filter (\<lambda>r. r \<in> set docs) results)"
     and query = "''query''" and docs = "Some [1, 2 :: nat]"]
    hybrid_search_never_raises_at_most_8 [where
     search = "\<lambda>q limit. Inr [1, 2, 3 :: nat]"
     and extract_keywords = "\<lambda>q. Inr [q]"
     and kw_search = "\<lambda>keywords limit. Inr [4, 5, 6, 7, 8, 9, 10 :: nat]"
     and combine = "\<lambda>semantic_results keyword_results. Inr (semantic_results @ keyword_results)"
     and filt = "\<lambda>results docs. Inr (filter (\<lambda>r. r \<in> set docs) results)"
     and query = "''query''" and docs = "None"]
  by simp

section \<open>Sorting by descending key\<close>

lemma set_insert_reverse: "set (insert_reverse k x xs) = insert x (set xs)"
  by (induction xs) auto

lemma sorted_insert_reverse:
  "sorted_wrt (\<lambda>a b. k b \<le> k a) xs \<Longrightarrow> sorted_wrt (\<lambda>a b. k b \<le> k a) (insert_reverse k x xs)"
  by (induction xs) (auto simp add: set_insert_reverse)

lemma distinct_map_insert_reverse:
  "distinct (map f (insert_reverse k x xs)) = distinct (map f (x # xs))"
  by (induction xs) (auto simp add: set_insert_reverse)

lemma set_sort_reverse: "set (sort_reverse k xs) = set xs"
  by (induction xs) (simp_all add: sort_reverse_def set_insert_reverse)

lemma sorted_sort_reverse: "sorted_wrt (\<lambda>a b. k b \<le> k a) (sort_reverse k xs)"
  by (induction xs) (simp_all add: sort_reverse_def sorted_insert_reverse)

lemma distinct_map_sort_reverse: "distinct (map f (sort_reverse k xs)) = distinct (map f xs)"
proof (induction xs)
  case Nil
  then show ?case by (simp add: sort_reverse_def)
next
  case (Cons x xs)
  have "sort_reverse k (x # xs) = insert_reverse k x (sort_reverse k xs)"
    by (simp add: sort_reverse_def)
  then show ?case
    using Cons.IH by (simp add: distinct_map_insert_reverse set_sort_reverse)
qed

section \<open>Properties of the fusion\<close>

lemma rank_from_None: "rank_from r ids x = None \<longleftrightarrow> x \<notin> set ids"
  by (induction ids arbitrary: r) auto

lemma fuse_vector_keys:
  "fst ` set (fuse_vector recip rank rs al) = fst ` set al \<union> sp_id ` set rs"
  by (induction rs arbitrary: rank al) (auto simp add: dom_update)

lemma fuse_vector_distinct:
  "distinct (map fst al) \<Longrightarrow> distinct (map fst (fuse_vector recip rank rs al))"
  by (induction rs arbitrary: rank al) (simp_all add: distinct_update)

lemma fuse_vector_other:
  "x \<notin> sp_id ` set rs \<Longrightarrow> map_of (fuse_vector recip rank rs al) x = map_of al x"
  by (induction rs arbitrary: rank al) (simp_all add: update_conv')

lemma fuse_vector_ranked:
  "distinct (map sp_id rs) \<Longrightarrow> rank_from rank (map sp_id rs) x = Some r \<Longrightarrow>
   \<exists>e. map_of (fuse_vector recip rank rs al) x = Some e \<and> f_score e = recip (r + 60)"
proof (induction rs arbitrary: rank al)
  case Nil
  then show ?case by simp
next
  case (Cons p ps)
  show ?case
  proof (cases "x = sp_id p")
    case True
    with Cons.prems have "x \<notin> sp_id ` set ps" and "r = rank" by auto
    then show ?thesis
      using True by (simp add: fuse_vector_other update_conv')
  next
    case False
    with Cons.prems have "distinct (map sp_id ps)" and "rank_from (Suc rank) (map sp_id ps) x = Some r"
      by auto
    then show ?thesis
      using Cons.IH by simp
  qed
qed

lemma fuse_vector_ids:
  "(\<forall>k e. map_of al k = Some e \<longrightarrow> f_id e = k) \<Longrightarrow>
   map_of (fuse_vector recip rank rs al) k = Some e \<Longrightarrow> f_id e = k"
proof (induction rs arbitrary: rank al)
  case Nil
  then show ?case by simp
next
  case (Cons p ps)
  show ?case
  proof (rule Cons.IH [of _ "Suc rank"])
    show "\<forall>k e. map_of (AList.update (sp_id p)
              \<lparr>f_score = recip (rank + 60), f_payload = sp_payload p, f_id = sp_id p\<rparr> al) k = Some e
            \<longrightarrow> f_id e = k"
      using Cons.prems(1) by (auto simp add: update_conv')
    show "map_of (fuse_vector recip (Suc rank) ps (AList.update (sp_id p)
              \<lparr>f_score = recip (rank + 60), f_payload = sp_payload p, f_id = sp_id p\<rparr> al)) k = Some e"
      using Cons.prems(2) by simp
  qed
qed

lemma fuse_keyword_keys:
  "fst ` set (fuse_keyword recip rank rows al) = fst ` set al \<union> fst ` set rows"
  by (induction recip rank rows al rule: fuse_keyword.induct)
     (auto simp add: dom_update split: option.splits)

lemma fuse_keyword_distinct:
  "distinct (map fst al) \<Longrightarrow> distinct (map fst (fuse_keyword recip rank rows al))"
  by (induction recip rank rows al rule: fuse_keyword.induct)
     (simp_all add: distinct_update split: option.splits)

lemma fuse_keyword_other:
  "x \<notin> fst ` set rows \<Longrightarrow> map_of (fuse_keyword recip rank rows al) x = map_of al x"
  by (induction recip rank rows al rule: fuse_keyword.induct)
     (auto simp add: update_conv' split: option.splits)

lemma fuse_keyword_ranked:
  "distinct (map fst rows) \<Longrightarrow> rank_from rank (map fst rows) x = Some r \<Longrightarrow>
   \<exists>e. map_of (fuse_keyword recip rank rows al) x = Some e
       \<and> f_score e = (case map_of al x of Some e0 \<Rightarrow> f_score e0 + recip (r + 60) | None \<Rightarrow> recip (r + 60))"
proof (induction recip rank rows al rule: fuse_keyword.induct)
  case (1 recip rank combined)
  then show ?case by simp
next
  case (2 recip rank chunk_id body pdf_name page rows combined)
  show ?case
  proof (cases "x = chunk_id")
    case True
    with "2.prems" have "x \<notin> fst ` set rows" and "r = rank" by auto
    then show ?thesis
      using True by (simp add: fuse_keyword_other update_conv' split: option.splits)
  next
    case False
    with "2.prems" have d: "distinct (map fst rows)"
      and rk: "rank_from (Suc rank) (map fst rows) x = Some r"
      by auto
    show ?thesis
      using "2.IH" [OF d rk] False by (simp add: update_conv' split: option.splits)
  qed
qed

lemma fuse_keyword_ids:
  "(\<forall>k e. map_of al k = Some e \<longrightarrow> f_id e = k) \<Longrightarrow>
   map_of (fuse_keyword recip rank rows al) k = Some e \<Longrightarrow> f_id e = k"
proof (induction recip rank rows al rule: fuse_keyword.induct)
  case (1 recip rank combined)
  then show ?case by simp
next
  case (2 recip rank chunk_id body pdf_name page rows combined)
  show ?case
  proof (rule "2.IH")
    show "\<forall>k e. map_of
             (case map_of combined chunk_id of
                Some e \<Rightarrow> AList.update chunk_id (e\<lparr>f_score := f_score e + recip (rank + 60)\<rparr>) combined
              | None \<Rightarrow>
                  AList.update chunk_id
                    \<lparr>f_score = recip (rank + 60),
                     f_payload = \<lparr>p_text = Some body, p_pdf_name = Some pdf_name,
                                   p_page = Some page, p_metadata = None\<rparr>,
                     f_id = chunk_id\<rparr> combined) k = Some e \<longrightarrow> f_id e = k"
      using "2.prems"(1) by (auto simp add: update_conv' split: option.splits)
    show "map_of
            (fuse_keyword recip (Suc rank) rows
               (case map_of combined chunk_id of
                  Some e \<Rightarrow> AList.update chunk_id (e\<lparr>f_score := f_score e + recip (rank + 60)\<rparr>) combined
                | None \<Rightarrow>
                    AList.update chunk_id
                      \<lparr>f_score = recip (rank + 60),
                       f_payload = \<lparr>p_text = Some body, p_pdf_name = Some pdf_name,
                                     p_page = Some page, p_metadata = None\<rparr>,
                       f_id = chunk_id\<rparr> combined)) k = Some e"
      using "2.prems"(2) by simp
  qed
qed

lemma fuse_combined_distinct: "distinct (map fst (fuse_combined recip vs ks))"
  by (simp add: fuse_combined_def fuse_keyword_distinct fuse_vector_distinct)

lemma fuse_combined_keys:
  "fst ` set (fuse_combined recip vs ks) = sp_id ` set vs \<union> fst ` set ks"
  by (simp add: fuse_combined_def fuse_keyword_keys fuse_vector_keys)

lemma fuse_combined_ids: "(k, e) \<in> set (fuse_combined recip vs ks) \<Longrightarrow> f_id e = k"
proof -
  assume "(k, e) \<in> set (fuse_combined recip vs ks)"
  then have m: "map_of (fuse_keyword recip 1 ks (fuse_vector recip 1 vs [])) k = Some e"
    using fuse_combined_distinct [of recip vs ks] by (simp add: fuse_combined_def)
  have "\<forall>k e. map_of (fuse_vector recip 1 vs []) k = Some e \<longrightarrow> f_id e = k"
    using fuse_vector_ids [where al = "[]" and recip = recip and rank = 1 and rs = vs] by simp
  then show "f_id e = k"
    using m by (rule fuse_keyword_ids)
qed

lemma fuse_combined_score:
  assumes dv: "distinct (map sp_id vs)" and dk: "distinct (map fst ks)"
    and mem: "(k, e) \<in> set (fuse_combined recip vs ks)"
  shows "spec_fused_score recip vs ks k = Some (f_score e)"
proof -
  let ?V = "fuse_vector recip 1 vs []"
  have m: "map_of (fuse_keyword recip 1 ks ?V) k = Some e"
    using mem fuse_combined_distinct [of recip vs ks] by (simp add: fuse_combined_def)
  have V: "(case rank_from 1 (map sp_id vs) k of
              Some r \<Rightarrow> \<exists>e0. map_of ?V k = Some e0 \<and> f_score e0 = recip (r + 60)
            | None \<Rightarrow> map_of ?V k = None)"
  proof (cases "rank_from 1 (map sp_id vs) k")
    case None
    then have "k \<notin> sp_id ` set vs" by (simp add: rank_from_None)
    then show ?thesis using None by (simp add: fuse_vector_other)
  next
    case (Some r)
    then show ?thesis using fuse_vector_ranked [OF dv Some] by simp
  qed
  show ?thesis
  proof (cases "rank_from 1 (map fst ks) k")
    case None
    then have "k \<notin> fst ` set ks" by (simp add: rank_from_None)
    then have "map_of ?V k = Some e"
      using m by (simp add: fuse_keyword_other)
    then show ?thesis
      using V None by (auto simp add: spec_fused_score_def split: option.splits)
  next
    case (Some r)
    from fuse_keyword_ranked [OF dk Some, where al = ?V and recip = recip] m
    have "f_score e = (case map_of ?V k of Some e0 \<Rightarrow> f_score e0 + recip (r + 60) | None \<Rightarrow> recip (r + 60))"
      by auto
    then show ?thesis
      using V Some by (auto simp add: spec_fused_score_def split: option.splits)
  qed
qed

text \<open>
  C2. For two ranked lists in which every chunk identifier occurs at most once,
  \<open>_fuse_results\<close> returns the first \<open>SIMILARITY_TOP_K\<close> entries of a list that is
  sorted by descending score, that has exactly one entry for each chunk identifier of
  either list, and in which the score of each chunk is the sum of \<open>1/(rank+60)\<close> over
  the lists in which the chunk appears, \<open>rank\<close> being its 1-based position there.
\<close>

theorem fuse_results_rrf:
  assumes "distinct (map sp_id vector_results)" and "distinct (map fst keyword_results)"
  shows "fuse_results recip vector_results keyword_results
           = take SIMILARITY_TOP_K (fuse_sorted recip vector_results keyword_results)
         \<and> sorted_wrt (\<lambda>a b. f_score b \<le> f_score a) (fuse_sorted recip vector_results keyword_results)
         \<and> distinct (map f_id (fuse_sorted recip vector_results keyword_results))
         \<and> f_id ` set (fuse_sorted recip vector_results keyword_results)
             = sp_id ` set vector_results \<union> fst ` set keyword_results
         \<and> (\<forall>e \<in> set (fuse_sorted recip vector_results keyword_results).
               spec_fused_score recip vector_results keyword_results (f_id e) = Some (f_score e))"
proof -
  let ?C = "fuse_combined recip vector_results keyword_results"
  have ids: "map f_id (map snd ?C) = map fst ?C"
    using fuse_combined_ids [of _ _ recip vector_results keyword_results] by auto
  have d: "distinct (map f_id (fuse_sorted recip vector_results keyword_results))"
    unfolding fuse_sorted_def distinct_map_sort_reverse ids
    by (rule fuse_combined_distinct)
  have s: "f_id ` set (fuse_sorted recip vector_results keyword_results)
             = sp_id ` set vector_results \<union> fst ` set keyword_results"
  proof -
    have "f_id ` set (fuse_sorted recip vector_results keyword_results) = set (map f_id (map snd ?C))"
      by (simp add: fuse_sorted_def set_sort_reverse image_image)
    also have "\<dots> = fst ` set ?C"
      unfolding ids by simp
    finally show ?thesis
      by (simp add: fuse_combined_keys)
  qed
  have sc: "\<forall>e \<in> set (fuse_sorted recip vector_results keyword_results).
               spec_fused_score recip vector_results keyword_results (f_id e) = Some (f_score e)"
  proof
    fix e
    assume "e \<in> set (fuse_sorted recip vector_results keyword_results)"
    then obtain k where mem: "(k, e) \<in> set ?C"
      by (auto simp add: fuse_sorted_def set_sort_reverse)
    then have "f_id e = k" by (rule fuse_combined_ids)
    then show "spec_fused_score recip vector_results keyword_results (f_id e) = Some (f_score e)"
      using fuse_combined_score [OF assms mem] by simp
  qed
  show ?thesis
    using d s sc by (simp add: fuse_results_def fuse_sorted_def sorted_sort_reverse)
qed

text \<open>C2 on five vector results and two keyword rows, one of which (\<open>b\<close>) is in both
  lists, in exact arithmetic.\<close>

theorem fuse_results_rrf_witness:
  "distinct (map sp_id example_points) \<and> distinct (map fst example_rows)
   \<and> map f_id (fuse_results exact_reciprocal example_points example_rows)
       = [''b'', ''a'', ''k'', ''c'', ''d'', ''e'']
   \<and> map f_score (fuse_results exact_reciprocal example_points example_rows)
       = [1 / 62 + 1 / 61, 1 / 61, 1 / 62, 1 / 63, 1 / 64, 1 / 65]
   \<and> spec_fused_score exact_reciprocal example_points example_rows ''b'' = Some (1 / 62 + 1 / 61)
   \<and> fuse_results exact_reciprocal example_points example_rows
       = take SIMILARITY_TOP_K (fuse_sorted exact_reciprocal example_points example_rows)
   \<and> distinct (map f_id (fuse_sorted exact_reciprocal example_points example_rows))"
proof -
  have h1: "distinct (map sp_id example_points)"
    by (simp add: example_points_def)
  have h2: "distinct (map fst example_rows)"
    by (simp add: example_rows_def)
  have ev: "map f_id (fuse_results exact_reciprocal example_points example_rows)
       = [''b'', ''a'', ''k'', ''c'', ''d'', ''e'']
   \<and> map f_score (fuse_results exact_reciprocal example_points example_rows)
       = [1 / 62 + 1 / 61, 1 / 61, 1 / 62, 1 / 63, 1 / 64, 1 / 65]
   \<and> spec_fused_score exact_reciprocal example_points example_rows ''b'' = Some (1 / 62 + 1 / 61)"
    by (simp add: example_points_def example_rows_def fuse_results_def fuse_sorted_def
      fuse_combined_def sort_reverse_def exact_reciprocal_def SIMILARITY_TOP_K_def
      spec_fused_score_def)
  show ?thesis
    using h1 h2 ev fuse_results_rrf [OF h1 h2, of exact_reciprocal] by simp
qed

section \<open>Properties of the combination\<close>

lemma set_add_scored: "set (add_scored d hits) = set_default_score d ` {r. Dict r \<in> set hits}"
  by (induction d hits rule: add_scored.induct) auto

lemma content_set_default_score: "content (set_default_score d r) = content r"
  by (simp add: content_def set_default_score_def Let_def)

lemma unique_results_subset: "set (unique_results h seen rs) \<subseteq> set rs"
  by (induction rs arbitrary: seen) auto

lemma unique_results_unseen: "x \<in> set (unique_results h seen rs) \<Longrightarrow> h (content x) \<notin> seen"
  by (induction rs arbitrary: seen) (auto split: if_splits)

lemma unique_results_distinct: "distinct (map (\<lambda>r. h (content r)) (unique_results h seen rs))"
  by (induction rs arbitrary: seen) (auto dest: unique_results_unseen)

lemma unique_results_first:
  "x \<in> set (unique_results h seen rs) \<Longrightarrow>
   \<exists>pre post. rs = pre @ x # post \<and> (\<forall>y \<in> set pre. h (content y) \<noteq> h (content x))"
proof (induction rs arbitrary: seen)
  case Nil
  then show ?case by simp
next
  case (Cons r rs)
  show ?case
  proof (cases "x = r \<and> h (content r) \<notin> seen")
    case True
    then have "r # rs = [] @ x # rs \<and> (\<forall>y \<in> set []. h (content y) \<noteq> h (content x))"
      by simp
    then show ?thesis by blast
  next
    case False
    let ?seen' = "if h (content r) \<in> seen then seen else insert (h (content r)) seen"
    from Cons.prems False have mem: "x \<in> set (unique_results h ?seen' rs)"
      by (auto split: if_splits)
    then have ne: "h (content r) \<noteq> h (content x)"
      using unique_results_unseen [OF mem] by (auto split: if_splits)
    from Cons.IH [OF mem] obtain pre post
      where "rs = pre @ x # post" and "\<forall>y \<in> set pre. h (content y) \<noteq> h (content x)"
      by blast
    then have "r # rs = (r # pre) @ x # post
        \<and> (\<forall>y \<in> set (r # pre). h (content y) \<noteq> h (content x))"
      using ne by simp
    then show ?thesis by blast
  qed
qed

lemma distinct_map_coarser:
  "distinct (map (\<lambda>x. g (f x)) xs) \<Longrightarrow> distinct (map f xs)"
  by (induction xs) auto

lemma first_in_left:
  assumes "xs @ ys = pre @ x # post" and "\<forall>y \<in> set pre. c y \<noteq> c x" and "s \<in> set xs" and "c s = c x"
  shows "x \<in> set xs"
proof (rule ccontr)
  assume "x \<notin> set xs"
  from assms(1) obtain us where "(xs = pre @ us \<and> us @ ys = x # post) \<or> (xs @ us = pre \<and> ys = us @ x # post)"
    by (auto simp add: append_eq_append_conv2)
  then show False
  proof
    assume a: "xs = pre @ us \<and> us @ ys = x # post"
    show False
    proof (cases us)
      case Nil
      with a assms(2,3,4) show False by auto
    next
      case (Cons u us')
      with a \<open>x \<notin> set xs\<close> show False by auto
    qed
  next
    assume "xs @ us = pre \<and> ys = us @ x # post"
    with assms(2,3,4) show False by auto
  qed
qed

lemma unique_results_keeps:
  "h (content x) \<notin> seen \<Longrightarrow> \<forall>y \<in> set pre. h (content y) \<noteq> h (content x) \<Longrightarrow>
   x \<in> set (unique_results h seen (pre @ x # post))"
  by (induction pre arbitrary: seen) auto

text \<open>
  C10. The list returned by \<open>_combine_results\<close> is sorted by non-increasing score; no
  two of its elements have the same text content; each element is a dictionary of the
  semantic list, with score 0.8 if it had none, or a dictionary of the keyword list,
  with score 0.6 if it had none; each element is the first one with its content in
  the concatenation of the two lists, so that an element whose content occurs in the
  semantic list comes from the semantic list. Nothing else is dropped: the elements of
  the output are exactly the dictionaries of the two lists, with their default scores,
  before which no dictionary has a content with the same hash key; with an injective
  hash, every content of the two lists of dictionaries is a content of the output. The
  dictionaries of the two lists with their default scores are given by the last two
  equations.
\<close>

theorem combine_results_sorted_unique:
  "sorted_wrt (\<lambda>a b. score_or_zero b \<le> score_or_zero a)
     (combine_results h semantic_results keyword_results)
   \<and> distinct (map content (combine_results h semantic_results keyword_results))
   \<and> (\<forall>x \<in> set (combine_results h semantic_results keyword_results).
        (\<exists>r. Dict r \<in> set semantic_results
              \<and> x = r\<lparr>r_score := Some (case r_score r of Some s \<Rightarrow> s | None \<Rightarrow> 4 / 5)\<rparr>)
      \<or> (\<exists>r. Dict r \<in> set keyword_results
              \<and> x = r\<lparr>r_score := Some (case r_score r of Some s \<Rightarrow> s | None \<Rightarrow> 3 / 5)\<rparr>))
   \<and> (\<forall>x \<in> set (combine_results h semantic_results keyword_results).
        \<exists>pre post.
          add_scored (4 / 5) semantic_results @ add_scored (3 / 5) keyword_results = pre @ x # post
          \<and> (\<forall>y \<in> set pre. content y \<noteq> content x))
   \<and> (\<forall>x \<in> set (combine_results h semantic_results keyword_results).
        (\<exists>r. Dict r \<in> set semantic_results \<and> content r = content x) \<longrightarrow>
        (\<exists>r. Dict r \<in> set semantic_results
              \<and> x = r\<lparr>r_score := Some (case r_score r of Some s \<Rightarrow> s | None \<Rightarrow> 4 / 5)\<rparr>))
   \<and> set (combine_results h semantic_results keyword_results)
       = {x. \<exists>pre post.
               add_scored (4 / 5) semantic_results @ add_scored (3 / 5) keyword_results
                 = pre @ x # post
               \<and> (\<forall>y \<in> set pre. h (content y) \<noteq> h (content x))}
   \<and> (inj h \<longrightarrow>
        content ` set (combine_results h semantic_results keyword_results)
          = content ` (set (add_scored (4 / 5) semantic_results)
                       \<union> set (add_scored (3 / 5) keyword_results)))
   \<and> set (add_scored (4 / 5) semantic_results)
       = (\<lambda>r. r\<lparr>r_score := Some (case r_score r of Some s \<Rightarrow> s | None \<Rightarrow> 4 / 5)\<rparr>)
           ` {r. Dict r \<in> set semantic_results}
   \<and> set (add_scored (3 / 5) keyword_results)
       = (\<lambda>r. r\<lparr>r_score := Some (case r_score r of Some s \<Rightarrow> s | None \<Rightarrow> 3 / 5)\<rparr>)
           ` {r. Dict r \<in> set keyword_results}"
proof -
  let ?S = "add_scored (4 / 5) semantic_results"
  let ?K = "add_scored (3 / 5) keyword_results"
  let ?U = "unique_results h {} (?S @ ?K)"
  have out: "combine_results h semantic_results keyword_results = sort_reverse score_or_zero ?U"
    by (simp add: combine_results_def)
  have sorted: "sorted_wrt (\<lambda>a b. score_or_zero b \<le> score_or_zero a)
     (combine_results h semantic_results keyword_results)"
    unfolding out by (rule sorted_sort_reverse)
  have "distinct (map (\<lambda>r. h (content r)) ?U)"
    by (rule unique_results_distinct)
  then have "distinct (map content ?U)"
    by (rule distinct_map_coarser)
  then have dist: "distinct (map content (combine_results h semantic_results keyword_results))"
    unfolding out by (simp add: distinct_map_sort_reverse)
  have exact: "set (combine_results h semantic_results keyword_results)
       = {x. \<exists>pre post. ?S @ ?K = pre @ x # post
               \<and> (\<forall>y \<in> set pre. h (content y) \<noteq> h (content x))}"
  proof (intro set_eqI iffI)
    fix x
    assume "x \<in> set (combine_results h semantic_results keyword_results)"
    then have "x \<in> set ?U"
      by (simp add: out set_sort_reverse)
    from unique_results_first [OF this]
    show "x \<in> {x. \<exists>pre post. ?S @ ?K = pre @ x # post
               \<and> (\<forall>y \<in> set pre. h (content y) \<noteq> h (content x))}"
      by blast
  next
    fix x
    assume "x \<in> {x. \<exists>pre post. ?S @ ?K = pre @ x # post
               \<and> (\<forall>y \<in> set pre. h (content y) \<noteq> h (content x))}"
    then obtain pre post where eq: "?S @ ?K = pre @ x # post"
      and fresh: "\<forall>y \<in> set pre. h (content y) \<noteq> h (content x)"
      by blast
    have "x \<in> set (unique_results h {} (pre @ x # post))"
      using fresh by (intro unique_results_keeps) simp_all
    then show "x \<in> set (combine_results h semantic_results keyword_results)"
      by (simp add: out set_sort_reverse eq)
  qed
  have first: "\<exists>pre post. ?S @ ?K = pre @ x # post \<and> (\<forall>y \<in> set pre. content y \<noteq> content x)"
    if "x \<in> set (combine_results h semantic_results keyword_results)" for x
  proof -
    from that exact obtain pre post
      where "?S @ ?K = pre @ x # post" and "\<forall>y \<in> set pre. h (content y) \<noteq> h (content x)"
      by blast
    then have "?S @ ?K = pre @ x # post \<and> (\<forall>y \<in> set pre. content y \<noteq> content x)"
      by auto
    then show ?thesis by blast
  qed
  have sem: "set ?S = (\<lambda>r. r\<lparr>r_score := Some (case r_score r of Some s \<Rightarrow> s | None \<Rightarrow> 4 / 5)\<rparr>)
           ` {r. Dict r \<in> set semantic_results}"
    by (auto simp add: set_add_scored set_default_score_def)
  have kw: "set ?K = (\<lambda>r. r\<lparr>r_score := Some (case r_score r of Some s \<Rightarrow> s | None \<Rightarrow> 3 / 5)\<rparr>)
           ` {r. Dict r \<in> set keyword_results}"
    by (auto simp add: set_add_scored set_default_score_def)
  have origin: "(\<exists>r. Dict r \<in> set semantic_results
              \<and> x = r\<lparr>r_score := Some (case r_score r of Some s \<Rightarrow> s | None \<Rightarrow> 4 / 5)\<rparr>)
      \<or> (\<exists>r. Dict r \<in> set keyword_results
              \<and> x = r\<lparr>r_score := Some (case r_score r of Some s \<Rightarrow> s | None \<Rightarrow> 3 / 5)\<rparr>)"
    if "x \<in> set (combine_results h semantic_results keyword_results)" for x
  proof -
    from that have "x \<in> set ?U"
      by (simp add: out set_sort_reverse)
    then have "x \<in> set ?S \<union> set ?K"
      using unique_results_subset [of h "{}" "?S @ ?K"] by auto
    then show ?thesis
      unfolding sem kw by blast
  qed
  have suppress: "\<exists>r. Dict r \<in> set semantic_results
              \<and> x = r\<lparr>r_score := Some (case r_score r of Some s \<Rightarrow> s | None \<Rightarrow> 4 / 5)\<rparr>"
    if mem: "x \<in> set (combine_results h semantic_results keyword_results)"
      and s: "\<exists>r. Dict r \<in> set semantic_results \<and> content r = content x" for x
  proof -
    from s obtain r where r: "Dict r \<in> set semantic_results" "content r = content x"
      by blast
    then have s: "set_default_score (4 / 5) r \<in> set ?S"
      by (auto simp add: set_add_scored)
    have c: "content (set_default_score (4 / 5) r) = content x"
      using r(2) by (simp add: content_set_default_score)
    from first [OF mem] obtain pre post
      where "?S @ ?K = pre @ x # post" and "\<forall>y \<in> set pre. content y \<noteq> content x"
      by blast
    then have "x \<in> set ?S"
      using s c by (rule first_in_left)
    then show ?thesis
      unfolding sem by blast
  qed
  have lossless: "content ` set (combine_results h semantic_results keyword_results)
          = content ` (set ?S \<union> set ?K)" if inj: "inj h"
  proof (intro set_eqI iffI)
    fix c
    assume "c \<in> content ` set (combine_results h semantic_results keyword_results)"
    then show "c \<in> content ` (set ?S \<union> set ?K)"
      using unique_results_subset [of h "{}" "?S @ ?K"]
      by (auto simp add: out set_sort_reverse)
  next
    fix c
    assume "c \<in> content ` (set ?S \<union> set ?K)"
    then have "\<exists>x \<in> set (?S @ ?K). content x = c"
      by auto
    from split_list_first_prop [OF this] obtain pre x post
      where eq: "?S @ ?K = pre @ x # post" and cx: "content x = c"
        and fresh: "\<forall>y \<in> set pre. content y \<noteq> c"
      by blast
    have "\<forall>y \<in> set pre. h (content y) \<noteq> h (content x)"
      using fresh cx inj by (auto dest: injD)
    with eq have "x \<in> set (combine_results h semantic_results keyword_results)"
      unfolding exact by blast
    with cx show "c \<in> content ` set (combine_results h semantic_results keyword_results)"
      by blast
  qed
  show ?thesis
    apply (intro conjI)
            apply (rule sorted)
           apply (rule dist)
          apply (intro ballI, erule origin)
         apply (intro ballI, erule first)
        apply (intro ballI impI, erule (1) suppress)
       apply (rule exact)
      apply (intro impI, erule lossless)
     apply (rule sem)
    apply (rule kw)
    done
qed

text \<open>C10 on two semantic dictionaries and three keyword results (a row, a dictionary
  with the text of the first semantic result, and a dictionary with a new text), and on
  the keyword results alone, where both dictionaries are kept with score 0.6.\<close>

theorem combine_results_sorted_unique_witness:
  "map r_id (combine_results length_hash example_semantic example_keyword)
     = [Some ''s2'', Some ''s1'', Some ''k2'']
   \<and> map r_score (combine_results length_hash example_semantic example_keyword)
     = [Some (9 / 10), Some (4 / 5), Some (3 / 5)]
   \<and> map content (combine_results length_hash example_semantic example_keyword)
     = [''beta'', ''alpha'', ''lambda'']
   \<and> distinct (map content (combine_results length_hash example_semantic example_keyword))
   \<and> map r_id (combine_results length_hash [] example_keyword) = [Some ''k1'', Some ''k2'']
   \<and> map r_score (combine_results length_hash [] example_keyword) = [Some (3 / 5), Some (3 / 5)]"
proof -
  have ev: "map r_id (combine_results length_hash example_semantic example_keyword)
     = [Some ''s2'', Some ''s1'', Some ''k2'']
   \<and> map r_score (combine_results length_hash example_semantic example_keyword)
     = [Some (9 / 10), Some (4 / 5), Some (3 / 5)]
   \<and> map content (combine_results length_hash example_semantic example_keyword)
     = [''beta'', ''alpha'', ''lambda'']
   \<and> map r_id (combine_results length_hash [] example_keyword) = [Some ''k1'', Some ''k2'']
   \<and> map r_score (combine_results length_hash [] example_keyword) = [Some (3 / 5), Some (3 / 5)]"
    by (simp add: combine_results_def example_semantic_def example_keyword_def length_hash_def
      set_default_score_def content_def score_or_zero_def sort_reverse_def)
  have "distinct (map content (combine_results length_hash example_semantic example_keyword))"
    by (rule combine_results_sorted_unique [of length_hash example_semantic example_keyword,
          THEN conjunct2, THEN conjunct1])
  with ev show ?thesis
    by (intro conjI) blast+
qed

section \<open>The gate of the hybrid search\<close>

text \<open>
  C1 as stated (for every query, both backends are called and the result is the top-K
  of the Reciprocal Rank Fusion of their results) fails. When the semantic backend
  returns five results, \<open>hybrid_search\<close> returns these five in the backend's order:
  the fused list of the same candidates has six entries in another order, and the
  result is the same when the keyword backend would raise, so it is not called.
\<close>

theorem hybrid_search_rrf_counterexample:
  "map r_id (hybrid_search length_hash example_client example_extract open_connection example_fts
               ''beta'' None)
     = [Some ''a'', Some ''b'', Some ''c'', Some ''d'', Some ''e'']
   \<and> map f_id (fuse_results exact_reciprocal example_points example_rows)
     = [''b'', ''a'', ''k'', ''c'', ''d'', ''e'']
   \<and> map r_id (hybrid_search length_hash example_client example_extract open_connection failing_fts
                 ''beta'' None)
     = [Some ''a'', Some ''b'', Some ''c'', Some ''d'', Some ''e'']"
  by (simp add: hybrid_search_def hybrid_search_with_def hybrid_search_try_def qdrant_search_def
      example_client_def example_points_def example_rows_def fuse_results_def fuse_sorted_def
      fuse_combined_def sort_reverse_def exact_reciprocal_def SIMILARITY_TOP_K_def)

text \<open>
  C1, amended. \<open>hybrid_search\<close> returns at most 8 results, and it always runs the
  semantic search, with limit 10. When that returns 5 results or more, the result is
  their first 8, after the access filter when a permitted list is given: it does not
  depend on what keyword extraction and the keyword search would return or raise. When
  the semantic search returns fewer than 5 results, keyword extraction and the keyword
  search (limit 5) are run: when either raises, the result is the empty list; when the
  keyword search returns no row, the result is the first 8 elements, after the access
  filter when a permitted list is given, of \<open>_combine_results\<close> on the semantic results
  and the empty list (default score 0.8, one result for each text, descending score).
  No rank fusion takes place.
\<close>

theorem hybrid_search_gated_combination:
  "length (hybrid_search h client extract_keywords cursor fts query docs) \<le> 8
   \<and> (5 \<le> length (qdrant_search client query 10) \<longrightarrow>
        hybrid_search h client extract_keywords cursor fts query docs
          = take 8 (case docs of
                      None \<Rightarrow> qdrant_search client query 10
                    | Some d \<Rightarrow> filter_by_accessible_docs (qdrant_search client query 10) d))
   \<and> (length (qdrant_search client query 10) < 5 \<longrightarrow>
        (\<forall>e. extract_keywords query = Inl e \<longrightarrow>
           hybrid_search h client extract_keywords cursor fts query docs = [])
      \<and> (\<forall>keywords.
           extract_keywords query = Inr keywords \<longrightarrow>
             (\<forall>e. keyword_db_search cursor fts keywords 5 = Inl e \<longrightarrow>
                hybrid_search h client extract_keywords cursor fts query docs = [])
           \<and> (keyword_db_search cursor fts keywords 5 = Inr [] \<longrightarrow>
                hybrid_search h client extract_keywords cursor fts query docs
                  = take 8 (case docs of
                              None \<Rightarrow> combine_results h (map Dict (qdrant_search client query 10)) []
                            | Some d \<Rightarrow>
                                filter_by_accessible_docs
                                  (combine_results h (map Dict (qdrant_search client query 10)) [])
                                  d))))"
proof -
  have len: "length (hybrid_search h client extract_keywords cursor fts query docs) \<le> 8"
    unfolding hybrid_search_def by (rule hybrid_search_with_length)
  show ?thesis
    apply (intro conjI)
      apply (rule len)
     apply (simp add: hybrid_search_def hybrid_search_with_def hybrid_search_try_def
        split: option.splits)
    apply (simp add: hybrid_search_def hybrid_search_with_def hybrid_search_try_def
        split: option.splits)
    done
qed

text \<open>C1, amended: a semantic backend that returns five results, with a keyword
  backend that would raise; and one that returns two results, with a keyword backend
  that raises on the query, with a connection that gives no cursor, and with a keyword
  backend that finds no row.\<close>

theorem hybrid_search_gated_combination_witness:
  "5 \<le> length (qdrant_search example_client ''beta'' 10)
   \<and> map r_id (hybrid_search length_hash example_client example_extract open_connection failing_fts
                  ''beta'' (Some [''a.pdf'']))
     = [Some ''a'', Some ''c'', Some ''e'']
   \<and> length (qdrant_search small_client ''beta'' 10) < 5
   \<and> example_extract ''beta'' = Inr [''beta'']
   \<and> keyword_db_search open_connection failing_fts [''beta''] 5
       = Inl (Exception ''database is closed'')
   \<and> hybrid_search length_hash small_client example_extract open_connection failing_fts
        ''beta'' None = []
   \<and> keyword_db_search closed_connection empty_fts [''beta''] 5 = Inl Sqlite3Error
   \<and> hybrid_search length_hash small_client example_extract closed_connection empty_fts
        ''beta'' None = []
   \<and> keyword_db_search open_connection empty_fts [''beta''] 5 = Inr []
   \<and> map r_id (hybrid_search length_hash small_client example_extract open_connection empty_fts
                  ''beta'' None)
     = [Some ''a'', Some ''b'']
   \<and> map r_id (hybrid_search length_hash small_client example_extract open_connection empty_fts
                  ''beta'' (Some [''b.pdf'']))
     = [Some ''b'']"
proof -
  have a: "5 \<le> length (qdrant_search example_client ''beta'' 10)"
    by (simp add: qdrant_search_def example_client_def example_points_def)
  have b: "length (qdrant_search small_client ''beta'' 10) < 5"
    by (simp add: qdrant_search_def small_client_def example_points_def)
  have c: "example_extract ''beta'' = Inr [''beta'']"
    by (simp add: example_extract_def)
  have d1: "keyword_db_search open_connection failing_fts [''beta''] 5
       = Inl (Exception ''database is closed'')"
    by (simp add: keyword_db_search_def open_connection_def failing_fts_def)
  have d2: "keyword_db_search closed_connection empty_fts [''beta''] 5 = Inl Sqlite3Error"
    by (simp add: keyword_db_search_def closed_connection_def)
  have d3: "keyword_db_search open_connection empty_fts [''beta''] 5 = Inr []"
    by (simp add: keyword_db_search_def open_connection_def empty_fts_def)
  have e: "map r_id (take 8 (filter_by_accessible_docs (qdrant_search example_client ''beta'' 10)
                              [''a.pdf'']))
     = [Some ''a'', Some ''c'', Some ''e'']"
    by (simp add: qdrant_search_def example_client_def example_points_def
        filter_by_accessible_docs_def result_doc_name_def doc_permitted_def)
  have f: "map r_id (take 8 (combine_results length_hash
                               (map Dict (qdrant_search small_client ''beta'' 10)) []))
     = [Some ''a'', Some ''b'']"
    by (simp add: qdrant_search_def small_client_def example_points_def combine_results_def
        length_hash_def set_default_score_def content_def score_or_zero_def sort_reverse_def)
  have g: "map r_id (take 8 (filter_by_accessible_docs
                               (combine_results length_hash
                                  (map Dict (qdrant_search small_client ''beta'' 10)) [])
                               [''b.pdf'']))
     = [Some ''b'']"
    by (simp add: qdrant_search_def small_client_def example_points_def combine_results_def
        length_hash_def set_default_score_def content_def score_or_zero_def sort_reverse_def
        filter_by_accessible_docs_def result_doc_name_def doc_permitted_def)
  show ?thesis
    using a b c d1 d2 d3 e f g
      hybrid_search_gated_combination [of length_hash example_client example_extract
        open_connection failing_fts "''beta''" "Some [''a.pdf'']"]
      hybrid_search_gated_combination [of length_hash small_client example_extract
        open_connection failing_fts "''beta''" None]
      hybrid_search_gated_combination [of length_hash small_client example_extract
        closed_connection empty_fts "''beta''" None]
      hybrid_search_gated_combination [of length_hash small_client example_extract
        open_connection empty_fts "''beta''" None]
      hybrid_search_gated_combination [of length_hash small_client example_extract
        open_connection empty_fts "''beta''" "Some [''b.pdf'']"]
    by simp
qed

section \<open>Properties of chunking\<close>

lemma join_append_nonempty:
  "xs \<noteq> [] \<Longrightarrow> ys \<noteq> [] \<Longrightarrow> join sep (xs @ ys) = join sep xs @ sep @ join sep ys"
  by (induction sep xs rule: join.induct) (auto simp add: neq_Nil_conv)

lemma join_join_concat:
  "\<forall>g \<in> set gs. g \<noteq> [] \<Longrightarrow> join sep (map (join sep) gs) = join sep (concat gs)"
proof (induction gs)
  case Nil
  then show ?case by simp
next
  case (Cons g gs)
  show ?case
  proof (cases gs)
    case Nil
    then show ?thesis by simp
  next
    case (Cons g' gs')
    with Cons.prems have "g \<noteq> []" and "concat gs \<noteq> []" by auto
    then show ?thesis
      using Cons.IH Cons.prems Cons by (simp add: join_append_nonempty)
  qed
qed

lemma range_step_Nil: "range_step start stop step = [] \<longleftrightarrow> step = 0 \<or> stop \<le> start"
  by (subst range_step.simps) simp

lemma range_step_bound: "i \<in> set (range_step start stop step) \<Longrightarrow> start \<le> i \<and> i < stop"
proof (induction start stop step rule: range_step.induct)
  case (1 start stop step)
  show ?case
  proof (cases "step = 0 \<or> stop \<le> start")
    case True
    with "1.prems" show ?thesis by (simp add: range_step_Nil [THEN iffD2])
  next
    case False
    with "1.prems" have "i = start \<or> i \<in> set (range_step (start + step) stop step)"
      by (subst (asm) range_step.simps) simp
    then show ?thesis
      using "1.IH" [OF False] False by auto
  qed
qed

lemma concat_slices:
  "0 < step \<Longrightarrow>
   concat (map (\<lambda>i. take step (drop i xs)) (range_step start (length xs) step)) = drop start xs"
proof (induction start "length xs" step rule: range_step.induct)
  case (1 start step)
  show ?case
  proof (cases "length xs \<le> start")
    case True
    then show ?thesis by (simp add: range_step_Nil [THEN iffD2])
  next
    case False
    with "1.prems" have c: "\<not> (step = 0 \<or> length xs \<le> start)" by simp
    have "concat (map (\<lambda>i. take step (drop i xs)) (range_step start (length xs) step))
        = take step (drop start xs)
          @ concat (map (\<lambda>i. take step (drop i xs)) (range_step (start + step) (length xs) step))"
      using c by (subst range_step.simps) simp
    also have "\<dots> = take step (drop start xs) @ drop (start + step) xs"
      using "1.hyps" [OF c "1.prems"] by simp
    also have "\<dots> = drop start xs"
      by (metis add.commute append_take_drop_id drop_drop)
    finally show ?thesis .
  qed
qed

lemma butlast_slices_full:
  "0 < step \<Longrightarrow>
   g \<in> set (butlast (map (\<lambda>i. take step (drop i xs)) (range_step start (length xs) step))) \<Longrightarrow>
   length g = step"
proof (induction start "length xs" step rule: range_step.induct)
  case (1 start step)
  show ?case
  proof (cases "length xs \<le> start")
    case True
    with "1.prems" show ?thesis by (simp add: range_step_Nil [THEN iffD2])
  next
    case False
    with "1.prems" have c: "\<not> (step = 0 \<or> length xs \<le> start)" by simp
    have unfold: "range_step start (length xs) step = start # range_step (start + step) (length xs) step"
      using c by (subst range_step.simps) simp
    show ?thesis
    proof (cases "range_step (start + step) (length xs) step = []")
      case True
      with "1.prems" unfold show ?thesis by simp
    next
      case nonempty: False
      then have "start + step < length xs"
        using "1.prems"(1) by (simp add: range_step_Nil)
      then have first: "length (take step (drop start xs)) = step" by simp
      from "1.prems"(2) unfold nonempty
      have "g = take step (drop start xs)
          \<or> g \<in> set (butlast (map (\<lambda>i. take step (drop i xs))
                                   (range_step (start + step) (length xs) step)))"
        by simp
      then show ?thesis
        using first "1.hyps" [OF c "1.prems"(1)] by blast
    qed
  qed
qed

lemma slices_nonempty:
  "g \<in> set (map (\<lambda>i. take step (drop i xs)) (range_step start (length xs) step)) \<Longrightarrow>
   g \<noteq> [] \<and> length g \<le> step"
proof -
  assume "g \<in> set (map (\<lambda>i. take step (drop i xs)) (range_step start (length xs) step))"
  then obtain i where i: "i \<in> set (range_step start (length xs) step)" and g: "g = take step (drop i xs)"
    by auto
  from i have "i < length xs" by (auto dest: range_step_bound)
  moreover from i have "step \<noteq> 0"
    using range_step_Nil [of start "length xs" step] by auto
  ultimately show ?thesis using g by simp
qed
lemma range_step_done: "stop \<le> start \<Longrightarrow> range_step start stop step = []"
  by (subst range_step.simps) simp

lemma range_step_more:
  "0 < step \<Longrightarrow> start < stop \<Longrightarrow>
   range_step start stop step = start # range_step (start + step) stop step"
  by (subst range_step.simps) simp

lemma range_step_from:
  "0 < step \<Longrightarrow>
   range_step start stop step
     = map (\<lambda>k. start + k * step) [0..<(stop - start + step - 1) div step]"
proof (induction start stop step rule: range_step.induct)
  case (1 start stop step)
  show ?case
  proof (cases "stop \<le> start")
    case True
    then have "(stop - start + step - 1) div step = 0"
      using "1.prems" by simp
    then show ?thesis
      using True by (simp add: range_step_done)
  next
    case False
    with "1.prems" have c: "\<not> (step = 0 \<or> stop \<le> start)" by simp
    let ?m = "(stop - (start + step) + step - 1) div step"
    have count: "(stop - start + step - 1) div step = Suc ?m"
    proof (cases "start + step \<le> stop")
      case True
      then obtain d where d: "stop = start + step + d"
        by (metis le_Suc_ex)
      obtain t where t: "d + step = Suc t"
        using "1.prems" by (cases "d + step") auto
      have l: "stop - start + step - 1 = t + step"
        using d t by simp
      have r: "stop - (start + step) + step - 1 = t"
        using d t by simp
      show ?thesis
        unfolding l r using "1.prems" by simp
    next
      case far: False
      obtain d where d: "stop = start + Suc d"
        using False by (metis Suc_diff_Suc add_Suc_right le_add_diff_inverse not_le_imp_less
            less_imp_le)
      have small: "d < step"
        using far d by simp
      have l: "stop - start + step - 1 = d + step"
        using d by simp
      have r: "stop - (start + step) + step - 1 = step - 1"
        using far by simp
      show ?thesis
        unfolding l r using "1.prems" small by simp
    qed
    have "range_step start stop step = start # range_step (start + step) stop step"
      using c by (simp add: range_step_more)
    also have "\<dots> = start # map (\<lambda>k. start + step + k * step) [0..<?m]"
      using "1.IH" [OF c "1.prems"] by simp
    also have "\<dots> = map (\<lambda>k. start + k * step) [0..<Suc ?m]"
    proof -
      have "[0..<Suc ?m] = 0 # map Suc [0..<?m]"
        by (simp add: upt_conv_Cons map_Suc_upt del: upt_Suc)
      then show ?thesis
        by (simp add: comp_def ac_simps del: upt_Suc)
    qed
    finally show ?thesis
      using count by simp
  qed
qed


lemma range_step_multiples:
  "0 < step \<Longrightarrow> range_step 0 n step = map (\<lambda>k. k * step) [0..<(n + step - 1) div step]"
  using range_step_from [of step 0 n] by simp

lemma chunk_page_valid:
  assumes "valid_sentences (sent_tokenize (pg_text pg)) \<noteq> []"
  shows "chunk_page sent_tokenize md5_hex pg
           = map (\<lambda>i. make_chunk md5_hex pg i
                          (join '' '' (take SENTENCES_PER_CHUNK
                                         (drop i (valid_sentences (sent_tokenize (pg_text pg)))))))
               (range_step 0 (length (valid_sentences (sent_tokenize (pg_text pg)))) SENTENCES_PER_CHUNK)"
  using assms by (simp add: chunk_page_def Let_def)

lemma chunk_text_single: "chunk_text sent_tokenize md5_hex [pg] = chunk_page sent_tokenize md5_hex pg"
  by (simp add: chunk_text_def)

text \<open>
  C7. For a page with at least one valid sentence (a sentence of at least
  \<open>MIN_SENTENCE_LENGTH\<close> words), wherever the page stands in the list given to
  \<open>chunk_text\<close>: the chunks of the list are the chunks of the pages before it, then the
  chunks of the page, then the chunks of the pages after it. The chunk texts of the
  page are the valid sentences taken \<open>SENTENCES_PER_CHUNK\<close> at a time and joined by a
  space: the groups are consecutive and in order (their concatenation is the list of
  valid sentences), every group but the last has exactly \<open>SENTENCES_PER_CHUNK\<close>
  sentences, and the last has at least one. There are \<open>\<lceil>n / SENTENCES_PER_CHUNK\<rceil>\<close>
  chunks for \<open>n\<close> valid sentences, and the text of chunk \<open>j\<close> is the join of the
  sentences from index \<open>j * SENTENCES_PER_CHUNK\<close> on. Joining the chunk texts with a
  space gives the joined valid sentences again. Each chunk carries its page's
  document name and page number.
\<close>

theorem chunk_text_sentence_groups:
  assumes "valid_sentences (sent_tokenize (pg_text pg)) \<noteq> []"
  shows "chunk_text sent_tokenize md5_hex (before @ pg # after)
           = chunk_text sent_tokenize md5_hex before @ chunk_text sent_tokenize md5_hex [pg]
               @ chunk_text sent_tokenize md5_hex after
         \<and> (\<exists>groups.
               groups = map (\<lambda>i. take SENTENCES_PER_CHUNK
                                    (drop i (valid_sentences (sent_tokenize (pg_text pg)))))
                          (range_step 0 (length (valid_sentences (sent_tokenize (pg_text pg))))
                             SENTENCES_PER_CHUNK)
             \<and> map c_text (chunk_text sent_tokenize md5_hex [pg]) = map (join '' '') groups
             \<and> concat groups = valid_sentences (sent_tokenize (pg_text pg))
             \<and> (\<forall>g \<in> set groups. g \<noteq> [] \<and> length g \<le> SENTENCES_PER_CHUNK)
             \<and> (\<forall>g \<in> set (butlast groups). length g = SENTENCES_PER_CHUNK))
         \<and> length (chunk_text sent_tokenize md5_hex [pg])
             = (length (valid_sentences (sent_tokenize (pg_text pg))) + SENTENCES_PER_CHUNK - 1)
                 div SENTENCES_PER_CHUNK
         \<and> (\<forall>j < length (chunk_text sent_tokenize md5_hex [pg]).
               c_text (chunk_text sent_tokenize md5_hex [pg] ! j)
                 = join '' '' (take SENTENCES_PER_CHUNK
                                 (drop (j * SENTENCES_PER_CHUNK)
                                    (valid_sentences (sent_tokenize (pg_text pg))))))
         \<and> join '' '' (map c_text (chunk_text sent_tokenize md5_hex [pg]))
             = join '' '' (valid_sentences (sent_tokenize (pg_text pg)))
         \<and> (\<forall>c \<in> set (chunk_text sent_tokenize md5_hex [pg]).
               cm_pdf_name (c_metadata c) = pg_pdf_name pg \<and> cm_page (c_metadata c) = pg_page pg)"
proof -
  let ?valid = "valid_sentences (sent_tokenize (pg_text pg))"
  let ?groups = "map (\<lambda>i. take SENTENCES_PER_CHUNK (drop i ?valid))
                   (range_step 0 (length ?valid) SENTENCES_PER_CHUNK)"
  let ?cs = "chunk_text sent_tokenize md5_hex [pg]"
  have cp: "?cs = map (\<lambda>i. make_chunk md5_hex pg i
                          (join '' '' (take SENTENCES_PER_CHUNK (drop i ?valid))))
               (range_step 0 (length ?valid) SENTENCES_PER_CHUNK)"
    unfolding chunk_text_single using assms by (rule chunk_page_valid)
  have pos: "0 < SENTENCES_PER_CHUNK"
    by (simp add: SENTENCES_PER_CHUNK_def)
  have order: "chunk_text sent_tokenize md5_hex (before @ pg # after)
           = chunk_text sent_tokenize md5_hex before @ ?cs @ chunk_text sent_tokenize md5_hex after"
    by (simp add: chunk_text_def)
  have texts: "map c_text ?cs = map (join '' '') ?groups"
    by (simp add: cp make_chunk_def comp_def)
  have cat: "concat ?groups = ?valid"
    using concat_slices [OF pos, of ?valid 0] by simp
  have ne: "\<forall>g \<in> set ?groups. g \<noteq> [] \<and> length g \<le> SENTENCES_PER_CHUNK"
    using slices_nonempty [of _ SENTENCES_PER_CHUNK ?valid 0] by blast
  have full: "\<forall>g \<in> set (butlast ?groups). length g = SENTENCES_PER_CHUNK"
    using butlast_slices_full [OF pos, of _ ?valid 0] by blast
  have len: "length ?cs = (length ?valid + SENTENCES_PER_CHUNK - 1) div SENTENCES_PER_CHUNK"
    by (simp add: cp range_step_multiples [OF pos])
  have nth: "\<forall>j < length ?cs.
               c_text (?cs ! j)
                 = join '' '' (take SENTENCES_PER_CHUNK (drop (j * SENTENCES_PER_CHUNK) ?valid))"
    unfolding len unfolding cp range_step_multiples [OF pos]
    by (simp add: make_chunk_def)
  have joined: "join '' '' (map c_text ?cs) = join '' '' ?valid"
  proof -
    have "join '' '' (map (join '' '') ?groups) = join '' '' (concat ?groups)"
      using ne by (intro join_join_concat) blast
    then show ?thesis
      using texts cat by simp
  qed
  have meta: "\<forall>c \<in> set ?cs.
               cm_pdf_name (c_metadata c) = pg_pdf_name pg \<and> cm_page (c_metadata c) = pg_page pg"
    by (auto simp add: cp make_chunk_def)
  show ?thesis
    using order texts cat ne full len nth joined meta by blast
qed

text \<open>The first example page has six valid sentences and one short one; the second
  has none; the words of the last one are separated by a no-break space and a next-line
  character.\<close>

lemma ex_valid: "valid_sentences (period_tokenize (pg_text example_page))
  = [''a b c d e.'', ''f g h i j.'', ''k l m n o.'', ''p q r s t.'', ''u v w x y.'', ''z a b c d.'']"
  by (simp add: valid_sentences_def period_tokenize_def example_page_def is_space_def
      str_split_def MIN_SENTENCE_LENGTH_def)

lemma ex_valid': "valid_sentences (period_tokenize (pg_text example_page')) = []"
  by (simp add: valid_sentences_def period_tokenize_def example_page'_def is_space_def
      str_split_def MIN_SENTENCE_LENGTH_def)

lemma ex_words': "str_split (pg_text example_page') = [''no'', ''sentence'', ''here'']"
  by (simp add: example_page'_def str_split_def is_space_def)

lemma ex_valid_revised: "valid_sentences (period_tokenize (pg_text revised_page))
  = [''B c d e f.'', ''G h i j k.'', ''L m n o p.'', ''Q r s t u.'', ''V w x y z.'', ''A b c d e.'']"
  by (simp add: valid_sentences_def period_tokenize_def revised_page_def is_space_def
      str_split_def MIN_SENTENCE_LENGTH_def)

lemma ex_words_nbsp:
  "str_split (pg_text nbsp_page) = [''one'', ''two'', ''three'', ''four'', ''five.'']"
  by (simp add: nbsp_page_def str_split_def is_space_def)

lemma ex_valid_nbsp:
  "valid_sentences (period_tokenize (pg_text nbsp_page)) = [pg_text nbsp_page]"
  by (simp add: valid_sentences_def period_tokenize_def nbsp_page_def is_space_def
      str_split_def MIN_SENTENCE_LENGTH_def)

lemma ex_chunks:
  "chunk_text period_tokenize example_digest [example_page', example_page, nbsp_page]
     = [make_chunk example_digest example_page' 0 ''no sentence here'',
        make_chunk example_digest example_page 0
          ''a b c d e. f g h i j. k l m n o. p q r s t. u v w x y.'',
        make_chunk example_digest example_page 5 ''z a b c d.'',
        make_chunk example_digest nbsp_page 0 (pg_text nbsp_page)]"
  by (simp add: chunk_text_def chunk_page_def ex_valid ex_valid' ex_words' ex_valid_nbsp
      SENTENCES_PER_CHUNK_def MIN_SENTENCE_LENGTH_def range_step_done range_step_more)

lemma ex_chunks_page:
  "chunk_text period_tokenize example_digest [example_page]
     = [make_chunk example_digest example_page 0
          ''a b c d e. f g h i j. k l m n o. p q r s t. u v w x y.'',
        make_chunk example_digest example_page 5 ''z a b c d.'']"
  by (simp add: chunk_text_def chunk_page_def ex_valid
      SENTENCES_PER_CHUNK_def range_step_done range_step_more)

lemma ex_chunks_revised:
  "chunk_text period_tokenize example_digest [revised_page]
     = [make_chunk example_digest revised_page 0
          ''B c d e f. G h i j k. L m n o p. Q r s t u. V w x y z.'',
        make_chunk example_digest revised_page 5 ''A b c d e.'']"
  by (simp add: chunk_text_def chunk_page_def ex_valid_revised
      SENTENCES_PER_CHUNK_def range_step_done range_step_more)

text \<open>C7 on three pages: the chunk of words of a page without a valid sentence, then
  a chunk of five sentences and a chunk of one, then the chunk of a page with one valid
  sentence.\<close>

theorem chunk_text_sentence_groups_witness:
  "valid_sentences (period_tokenize (pg_text example_page))
     = [''a b c d e.'', ''f g h i j.'', ''k l m n o.'', ''p q r s t.'', ''u v w x y.'', ''z a b c d.'']
   \<and> map c_text (chunk_text period_tokenize example_digest [example_page', example_page, nbsp_page])
     = [''no sentence here'',
        ''a b c d e. f g h i j. k l m n o. p q r s t. u v w x y.'', ''z a b c d.'',
        ''one'' @ [CHR 0xA0] @ ''two'' @ [CHR 0x85] @ ''three four five.'']
   \<and> chunk_text period_tokenize example_digest ([example_page'] @ example_page # [nbsp_page])
     = chunk_text period_tokenize example_digest [example_page']
         @ chunk_text period_tokenize example_digest [example_page]
         @ chunk_text period_tokenize example_digest [nbsp_page]
   \<and> map c_text (chunk_text period_tokenize example_digest [example_page])
     = [''a b c d e. f g h i j. k l m n o. p q r s t. u v w x y.'', ''z a b c d.'']
   \<and> length (chunk_text period_tokenize example_digest [example_page]) = 2
   \<and> join '' '' (map c_text (chunk_text period_tokenize example_digest [example_page]))
     = ''a b c d e. f g h i j. k l m n o. p q r s t. u v w x y. z a b c d.''
   \<and> valid_sentences (period_tokenize (pg_text nbsp_page))
     = [''one'' @ [CHR 0xA0] @ ''two'' @ [CHR 0x85] @ ''three four five.'']"
proof -
  have h: "valid_sentences (period_tokenize (pg_text example_page)) \<noteq> []"
    by (simp add: ex_valid)
  note inst = chunk_text_sentence_groups [where sent_tokenize = period_tokenize
        and pg = example_page and md5_hex = example_digest and before = "[example_page']"
        and after = "[nbsp_page]", OF h]
  have ev: "map c_text (chunk_text period_tokenize example_digest [example_page', example_page, nbsp_page])
     = [''no sentence here'',
        ''a b c d e. f g h i j. k l m n o. p q r s t. u v w x y.'', ''z a b c d.'',
        ''one'' @ [CHR 0xA0] @ ''two'' @ [CHR 0x85] @ ''three four five.'']"
    unfolding ex_chunks by (simp add: make_chunk_def nbsp_page_def)
  have ev1: "map c_text (chunk_text period_tokenize example_digest [example_page])
     = [''a b c d e. f g h i j. k l m n o. p q r s t. u v w x y.'', ''z a b c d.'']"
    unfolding ex_chunks_page by (simp add: make_chunk_def)
  have order: "chunk_text period_tokenize example_digest ([example_page'] @ example_page # [nbsp_page])
     = chunk_text period_tokenize example_digest [example_page']
         @ chunk_text period_tokenize example_digest [example_page]
         @ chunk_text period_tokenize example_digest [nbsp_page]"
    by (rule inst [THEN conjunct1])
  have "length (chunk_text period_tokenize example_digest [example_page])
      = (length (valid_sentences (period_tokenize (pg_text example_page))) + SENTENCES_PER_CHUNK - 1)
                 div SENTENCES_PER_CHUNK"
    by (rule inst [THEN conjunct2, THEN conjunct2, THEN conjunct1])
  then have len: "length (chunk_text period_tokenize example_digest [example_page]) = 2"
    by (simp add: ex_valid SENTENCES_PER_CHUNK_def)
  have "join '' '' (map c_text (chunk_text period_tokenize example_digest [example_page]))
      = join '' '' (valid_sentences (period_tokenize (pg_text example_page)))"
    by (rule inst [THEN conjunct2, THEN conjunct2, THEN conjunct2, THEN conjunct2, THEN conjunct1])
  then have joined: "join '' '' (map c_text (chunk_text period_tokenize example_digest [example_page]))
     = ''a b c d e. f g h i j. k l m n o. p q r s t. u v w x y. z a b c d.''"
    by (simp add: ex_valid)
  have nb: "valid_sentences (period_tokenize (pg_text nbsp_page))
     = [''one'' @ [CHR 0xA0] @ ''two'' @ [CHR 0x85] @ ''three four five.'']"
    unfolding ex_valid_nbsp by (simp add: nbsp_page_def)
  from ex_valid ev order ev1 len joined nb show ?thesis
    by (intro conjI)
qed

text \<open>
  C4. The chunk identifiers that \<open>chunk_text\<close> produces are, page after page and in
  the order of the chunks, the MD5 hex digests of \<open>"{pdf_name}_{page}_{i}"\<close>, where \<open>i\<close>
  runs through the offsets of the page's loop: \<open>range(0, n, 5)\<close> over its \<open>n\<close> valid
  sentences, or \<open>range(0, n, 25)\<close> over its \<open>n\<close> words when it has no valid sentence.
  For one page these offsets are the multiples \<open>k * step\<close> for \<open>k\<close> below
  \<open>\<lceil>n / step\<rceil>\<close>. The chunk text does not enter: two pages with the same document
  name and page number, whatever their texts and the tokenizer, that take the same
  branch and give as many chunks, give the same list of identifiers.
\<close>

theorem chunk_text_ids_from_name_page_offset:
  "map (\<lambda>c. cm_chunk_id (c_metadata c)) (chunk_text sent_tokenize md5_hex pages)
     = concat (map (\<lambda>pg.
         map (\<lambda>i. md5_hex (pg_pdf_name pg @ ''_'' @ str_int (pg_page pg) @ ''_'' @ str_int (int i)))
           (if valid_sentences (sent_tokenize (pg_text pg)) = []
            then range_step 0 (length (str_split (pg_text pg)))
                   (MIN_SENTENCE_LENGTH * SENTENCES_PER_CHUNK)
            else range_step 0 (length (valid_sentences (sent_tokenize (pg_text pg))))
                   SENTENCES_PER_CHUNK)) pages)
   \<and> map (\<lambda>c. cm_chunk_id (c_metadata c)) (chunk_text sent_tokenize md5_hex [pg])
     = (if valid_sentences (sent_tokenize (pg_text pg)) = []
        then map (\<lambda>k. md5_hex (pg_pdf_name pg @ ''_'' @ str_int (pg_page pg) @ ''_''
                                  @ str_int (int (k * (MIN_SENTENCE_LENGTH * SENTENCES_PER_CHUNK)))))
               [0..<(length (str_split (pg_text pg))
                       + MIN_SENTENCE_LENGTH * SENTENCES_PER_CHUNK - 1)
                      div (MIN_SENTENCE_LENGTH * SENTENCES_PER_CHUNK)]
        else map (\<lambda>k. md5_hex (pg_pdf_name pg @ ''_'' @ str_int (pg_page pg) @ ''_''
                                  @ str_int (int (k * SENTENCES_PER_CHUNK))))
               [0..<(length (valid_sentences (sent_tokenize (pg_text pg)))
                       + SENTENCES_PER_CHUNK - 1)
                      div SENTENCES_PER_CHUNK])
   \<and> (pg_pdf_name pg' = pg_pdf_name pg \<and> pg_page pg' = pg_page pg
        \<and> (valid_sentences (sent_tokenize' (pg_text pg')) = []
             \<longleftrightarrow> valid_sentences (sent_tokenize (pg_text pg)) = [])
        \<and> length (chunk_text sent_tokenize' md5_hex [pg'])
            = length (chunk_text sent_tokenize md5_hex [pg]) \<longrightarrow>
        map (\<lambda>c. cm_chunk_id (c_metadata c)) (chunk_text sent_tokenize' md5_hex [pg'])
          = map (\<lambda>c. cm_chunk_id (c_metadata c)) (chunk_text sent_tokenize md5_hex [pg]))"
proof -
  have page: "map (\<lambda>c. cm_chunk_id (c_metadata c)) (chunk_page t md5_hex p)
     = map (\<lambda>i. md5_hex (pg_pdf_name p @ ''_'' @ str_int (pg_page p) @ ''_'' @ str_int (int i)))
         (if valid_sentences (t (pg_text p)) = []
          then range_step 0 (length (str_split (pg_text p)))
                 (MIN_SENTENCE_LENGTH * SENTENCES_PER_CHUNK)
          else range_step 0 (length (valid_sentences (t (pg_text p))))
                 SENTENCES_PER_CHUNK)" for t p
    by (simp add: chunk_page_def Let_def make_chunk_def chunk_id_of_def comp_def)
  have a: "map (\<lambda>c. cm_chunk_id (c_metadata c)) (chunk_text sent_tokenize md5_hex pages)
     = concat (map (\<lambda>pg.
         map (\<lambda>i. md5_hex (pg_pdf_name pg @ ''_'' @ str_int (pg_page pg) @ ''_'' @ str_int (int i)))
           (if valid_sentences (sent_tokenize (pg_text pg)) = []
            then range_step 0 (length (str_split (pg_text pg)))
                   (MIN_SENTENCE_LENGTH * SENTENCES_PER_CHUNK)
            else range_step 0 (length (valid_sentences (sent_tokenize (pg_text pg))))
                   SENTENCES_PER_CHUNK)) pages)"
    by (simp add: chunk_text_def map_concat comp_def page)
  have pos: "0 < SENTENCES_PER_CHUNK" "0 < MIN_SENTENCE_LENGTH * SENTENCES_PER_CHUNK"
    by (simp_all add: SENTENCES_PER_CHUNK_def MIN_SENTENCE_LENGTH_def)
  have single: "map (\<lambda>c. cm_chunk_id (c_metadata c)) (chunk_text t md5_hex [p])
     = (if valid_sentences (t (pg_text p)) = []
        then map (\<lambda>k. md5_hex (pg_pdf_name p @ ''_'' @ str_int (pg_page p) @ ''_''
                                  @ str_int (int (k * (MIN_SENTENCE_LENGTH * SENTENCES_PER_CHUNK)))))
               [0..<(length (str_split (pg_text p))
                       + MIN_SENTENCE_LENGTH * SENTENCES_PER_CHUNK - 1)
                      div (MIN_SENTENCE_LENGTH * SENTENCES_PER_CHUNK)]
        else map (\<lambda>k. md5_hex (pg_pdf_name p @ ''_'' @ str_int (pg_page p) @ ''_''
                                  @ str_int (int (k * SENTENCES_PER_CHUNK))))
               [0..<(length (valid_sentences (t (pg_text p)))
                       + SENTENCES_PER_CHUNK - 1)
                      div SENTENCES_PER_CHUNK])" for t p
    unfolding chunk_text_single page
    by (simp add: range_step_multiples [OF pos(1)] range_step_multiples [OF pos(2)] comp_def)
  have c: "map (\<lambda>c. cm_chunk_id (c_metadata c)) (chunk_text sent_tokenize' md5_hex [pg'])
          = map (\<lambda>c. cm_chunk_id (c_metadata c)) (chunk_text sent_tokenize md5_hex [pg])"
    if n: "pg_pdf_name pg' = pg_pdf_name pg" and g: "pg_page pg' = pg_page pg"
      and br: "valid_sentences (sent_tokenize' (pg_text pg')) = []
             \<longleftrightarrow> valid_sentences (sent_tokenize (pg_text pg)) = []"
      and len: "length (chunk_text sent_tokenize' md5_hex [pg'])
            = length (chunk_text sent_tokenize md5_hex [pg])"
  proof -
    have "length (map (\<lambda>c. cm_chunk_id (c_metadata c)) (chunk_text sent_tokenize' md5_hex [pg']))
        = length (map (\<lambda>c. cm_chunk_id (c_metadata c)) (chunk_text sent_tokenize md5_hex [pg]))"
      using len by simp
    then show ?thesis
      unfolding single using n g br by (auto split: if_splits)
  qed
  show ?thesis
    using a single [of sent_tokenize pg] c by blast
qed

text \<open>C4 on the three example pages, and on the first of them with another text: the
  chunk texts differ and the identifiers are the same.\<close>

theorem chunk_text_ids_from_name_page_offset_witness:
  "map (\<lambda>c. cm_chunk_id (c_metadata c))
       (chunk_text period_tokenize example_digest [example_page', example_page, nbsp_page])
     = [example_digest ''doc.pdf_3_0'', example_digest ''doc.pdf_3_0'',
        example_digest ''doc.pdf_3_5'', example_digest ''doc.pdf_4_0'']
   \<and> map (\<lambda>c. cm_chunk_id (c_metadata c)) (chunk_text period_tokenize example_digest [example_page])
     = [example_digest ''doc.pdf_3_0'', example_digest ''doc.pdf_3_5'']
   \<and> pg_pdf_name revised_page = pg_pdf_name example_page
   \<and> pg_page revised_page = pg_page example_page
   \<and> map c_text (chunk_text period_tokenize example_digest [revised_page])
       \<noteq> map c_text (chunk_text period_tokenize example_digest [example_page])
   \<and> length (chunk_text period_tokenize example_digest [revised_page])
       = length (chunk_text period_tokenize example_digest [example_page])
   \<and> map (\<lambda>c. cm_chunk_id (c_metadata c)) (chunk_text period_tokenize example_digest [revised_page])
       = map (\<lambda>c. cm_chunk_id (c_metadata c)) (chunk_text period_tokenize example_digest [example_page])"
proof -
  note inst = chunk_text_ids_from_name_page_offset [where sent_tokenize = period_tokenize
        and sent_tokenize' = period_tokenize
        and md5_hex = example_digest and pages = "[example_page', example_page, nbsp_page]"
        and pg = example_page and pg' = revised_page]
  have all: "map (\<lambda>c. cm_chunk_id (c_metadata c))
       (chunk_text period_tokenize example_digest [example_page', example_page, nbsp_page])
     = [example_digest ''doc.pdf_3_0'', example_digest ''doc.pdf_3_0'',
        example_digest ''doc.pdf_3_5'', example_digest ''doc.pdf_4_0'']"
    unfolding inst [THEN conjunct1]
    apply (simp add: ex_valid ex_valid' ex_words' ex_valid_nbsp SENTENCES_PER_CHUNK_def
        MIN_SENTENCE_LENGTH_def range_step_done range_step_more)
    apply (simp add: example_page_def example_page'_def nbsp_page_def str_int_def)
    done
  have one: "map (\<lambda>c. cm_chunk_id (c_metadata c)) (chunk_text period_tokenize example_digest [example_page])
     = [example_digest ''doc.pdf_3_0'', example_digest ''doc.pdf_3_5'']"
    unfolding inst [THEN conjunct2, THEN conjunct1]
    apply (simp add: ex_valid SENTENCES_PER_CHUNK_def upt_conv_Cons)
    apply (simp add: example_page_def str_int_def)
    done
  have n: "pg_pdf_name revised_page = pg_pdf_name example_page"
    and g: "pg_page revised_page = pg_page example_page"
    by (simp_all add: example_page_def revised_page_def)
  have t: "map c_text (chunk_text period_tokenize example_digest [revised_page])
       \<noteq> map c_text (chunk_text period_tokenize example_digest [example_page])"
    by (simp add: ex_chunks_page ex_chunks_revised make_chunk_def)
  have l: "length (chunk_text period_tokenize example_digest [revised_page])
       = length (chunk_text period_tokenize example_digest [example_page])"
    by (simp add: ex_chunks_page ex_chunks_revised)
  have br: "valid_sentences (period_tokenize (pg_text revised_page)) = []
             \<longleftrightarrow> valid_sentences (period_tokenize (pg_text example_page)) = []"
    by (simp add: ex_valid ex_valid_revised)
  have same: "map (\<lambda>c. cm_chunk_id (c_metadata c)) (chunk_text period_tokenize example_digest [revised_page])
       = map (\<lambda>c. cm_chunk_id (c_metadata c)) (chunk_text period_tokenize example_digest [example_page])"
    using inst [THEN conjunct2, THEN conjunct2] n g br l by blast
  from all one n g t l same show ?thesis
    by (intro conjI)
qed

section \<open>Properties of the chatbot\<close>

text \<open>
  C6. When the call of the language model raises, \<open>generate_response\<close> raises nothing:
  it returns the fallback answer, built from the query and the retrieved context text
  (its first 800 characters followed by \<open>...\<close> when it is longer than 800), together
  with the retrieved (and, with a permitted list, filtered) chunks. The call of the
  model is reached when the query is not empty, chunks were retrieved and left by the
  filter, and each of them has a text.
\<close>

theorem generate_response_fallback:
  assumes "query \<noteq> []"
    and "chunks = (case accessible_docs of
                     None \<Rightarrow> get_context_for_rag vector_search query
                   | Some docs \<Rightarrow> filter_chunks_by_access (get_context_for_rag vector_search query) docs)"
    and "chunks \<noteq> []"
    and "chunk_texts chunks = Inr texts"
    and "ollama_generate
           (RAG_PROMPT_TEMPLATE (join ''\<newline>\<newline>---\<newline>\<newline>'' texts) query) = Inl e"
  shows "generate_response vector_search ollama_generate query accessible_docs
           = Inr (generate_fallback_response query (join ''\<newline>\<newline>---\<newline>\<newline>'' texts), chunks)
         \<and> generate_fallback_response query (join ''\<newline>\<newline>---\<newline>\<newline>'' texts)
           = ''Based on the available documents, here's what I found regarding your question: ''
             @ [CHR 0x22] @ query @ [CHR 0x22] @ ''\<newline>\<newline>''
             @ (if length (join ''\<newline>\<newline>---\<newline>\<newline>'' texts) > 800
                then take 800 (join ''\<newline>\<newline>---\<newline>\<newline>'' texts) @ ''...''
                else join ''\<newline>\<newline>---\<newline>\<newline>'' texts)
             @ ''\<newline>\<newline>''
             @ ''This information is extracted directly from your documents. For more detailed AI-powered responses, please ensure Ollama is properly configured.''"
proof -
  have ans: "answer_from_chunks ollama_generate query chunks
      = Inr (generate_fallback_response query (join ''\<newline>\<newline>---\<newline>\<newline>'' texts), chunks)"
    using assms(4,5) by (simp add: answer_from_chunks_def Let_def)
  have retrieved: "get_context_for_rag vector_search query \<noteq> []"
    using assms(2,3) by (auto simp add: filter_chunks_by_access_def split: option.splits if_splits)
  have "generate_response vector_search ollama_generate query accessible_docs
      = answer_from_chunks ollama_generate query chunks"
    using assms(1,2,3) retrieved
    by (simp add: generate_response_def Let_def split: option.splits)
  then show ?thesis
    using ans by (simp add: generate_fallback_response_def context_summary_def)
qed

text \<open>C6 on a query for which two chunks are retrieved, one of them permitted, with a
  language model that raises.\<close>

theorem generate_response_fallback_witness:
  "generate_response example_vector_search failing_ollama ''What changed?'' (Some [''report.pdf''])
     = Inr (generate_fallback_response ''What changed?'' ''Revenue grew.'',
            [\<lparr>p_text = Some ''Revenue grew.'', p_pdf_name = Some ''report.pdf'', p_page = Some 2,
              p_metadata = None\<rparr>])"
proof -
  have c: "get_context_for_rag example_vector_search ''What changed?'' = example_chunks"
    by (simp add: get_context_for_rag_def example_vector_search_def example_chunks_def
        CONTEXT_CHUNKS_FOR_RAG_def str_strip_def is_space_def)
  have f: "filter_chunks_by_access example_chunks [''report.pdf'']
      = [\<lparr>p_text = Some ''Revenue grew.'', p_pdf_name = Some ''report.pdf'', p_page = Some 2,
              p_metadata = None\<rparr>]"
    by (simp add: filter_chunks_by_access_def example_chunks_def chunk_doc_name_def doc_permitted_def)
  show ?thesis
    using generate_response_fallback [where query = "''What changed?''"
        and chunks = "[\<lparr>p_text = Some ''Revenue grew.'', p_pdf_name = Some ''report.pdf'',
                        p_page = Some 2, p_metadata = None\<rparr>]"
        and accessible_docs = "Some [''report.pdf'']"
        and vector_search = example_vector_search
        and texts = "[''Revenue grew.'']"
        and ollama_generate = failing_ollama
        and e = "Exception ''connection refused''"]
    by (simp add: c f failing_ollama_def)
qed

section \<open>Properties of the embedding cache\<close>

lemma split_cached_result:
  "split_cached cache chunks emap texts cmap = (emap', texts', cmap') \<Longrightarrow>
   texts' = texts @ map c_text (filter (\<lambda>c. cache (cm_chunk_id (c_metadata c)) = None) chunks)
   \<and> (\<forall>k. emap' k =
          (if k \<in> (\<lambda>c. cm_chunk_id (c_metadata c)) ` set chunks \<and> cache k \<noteq> None then cache k
           else emap k))
   \<and> (\<forall>t k. cmap' t = Some k \<longrightarrow> cmap t = Some k \<or> cache k = None)"
proof (induction chunks arbitrary: emap texts cmap)
  case Nil
  then show ?case by simp
next
  case (Cons c cs)
  show ?case
  proof (cases "cache (cm_chunk_id (c_metadata c))")
    case None
    with Cons.prems have
      "split_cached cache cs emap (texts @ [c_text c]) (cmap(c_text c \<mapsto> cm_chunk_id (c_metadata c)))
         = (emap', texts', cmap')"
      by simp
    note ih = Cons.IH [OF this]
    note t = ih [THEN conjunct1]
    note e = ih [THEN conjunct2, THEN conjunct1]
    note m = ih [THEN conjunct2, THEN conjunct2]
    have m': "cmap t = Some k \<or> cache k = None" if "cmap' t = Some k" for t k
    proof (cases "t = c_text c")
      case True
      with m that None show ?thesis by fastforce
    next
      case False
      with m that show ?thesis by fastforce
    qed
    show ?thesis
      using t e m' None by auto
  next
    case (Some v)
    with Cons.prems have
      "split_cached cache cs (emap(cm_chunk_id (c_metadata c) \<mapsto> v)) texts cmap
         = (emap', texts', cmap')"
      by simp
    from Cons.IH [OF this] show ?thesis
      using Some by auto
  qed
qed

lemma store_new_keeps:
  "store_new write cmap pairs emap cache = (err, emap', cache') \<Longrightarrow>
   \<forall>t. cmap t \<noteq> Some k \<Longrightarrow> emap' k = emap k"
proof (induction pairs arbitrary: emap cache)
  case Nil
  then show ?case by simp
next
  case (Cons p ps)
  obtain t v where p: "p = (t, v)" by (cases p)
  show ?case
  proof (cases "cmap t")
    case None
    with Cons.prems p show ?thesis by simp
  next
    case (Some i)
    with Cons.prems p have
      "store_new write cmap ps (emap(i \<mapsto> v)) (save_embedding write cache i v) = (err, emap', cache')"
      by simp
    from Cons.IH [OF this Cons.prems(2)] have "emap' k = (emap(i \<mapsto> v)) k" .
    moreover have "i \<noteq> k" using Some Cons.prems(2) by auto
    ultimately show ?thesis by simp
  qed
qed

lemma lookup_all_Inr:
  "lookup_all emap chunks = Inr vs \<Longrightarrow>
   length vs = length chunks
   \<and> (\<forall>j < length chunks. emap (cm_chunk_id (c_metadata (chunks ! j))) = Some (vs ! j))"
proof (induction chunks arbitrary: vs)
  case Nil
  then show ?case by simp
next
  case (Cons c cs)
  from Cons.prems obtain v vs' where v: "emap (cm_chunk_id (c_metadata c)) = Some v"
    and r: "lookup_all emap cs = Inr vs'" and vs: "vs = v # vs'"
    by (auto split: option.splits sum.splits)
  from Cons.IH [OF r] show ?case
    using v vs by (auto simp add: nth_Cons split: nat.splits)
qed


text \<open>
  What \<open>_generate_embeddings\<close> does do: the model is called at most once, on the texts
  of the chunks whose identifiers are not in the cache, in input order, and not at all
  when there are none; and whenever a list is returned, it has one embedding per input
  chunk and holds the cached vector at the position of every chunk whose identifier
  is in the cache.
\<close>

lemma generate_embeddings_encode_calls:
  "encode_calls (generate_embeddings encode write cache chunks)
     = (if filter (\<lambda>c. cache (cm_chunk_id (c_metadata c)) = None) chunks = [] then []
        else [map c_text (filter (\<lambda>c. cache (cm_chunk_id (c_metadata c)) = None) chunks)])"
proof -
  obtain emap texts cmap where s: "split_cached cache chunks Map.empty [] Map.empty = (emap, texts, cmap)"
    by (cases "split_cached cache chunks Map.empty [] Map.empty") auto
  from split_cached_result [OF s]
  have t: "texts = map c_text (filter (\<lambda>c. cache (cm_chunk_id (c_metadata c)) = None) chunks)"
    by simp
  show ?thesis
    using t by (auto simp add: generate_embeddings_def s split: sum.splits option.splits prod.splits)
qed

lemma generate_embeddings_when_it_returns:
  assumes "returned (generate_embeddings encode write cache chunks) = Inr vs"
  shows "length vs = length chunks
         \<and> (\<forall>j < length chunks. \<forall>v.
               cache (cm_chunk_id (c_metadata (chunks ! j))) = Some v \<longrightarrow> vs ! j = v)"
proof -
  obtain emap texts cmap where s: "split_cached cache chunks Map.empty [] Map.empty = (emap, texts, cmap)"
    by (cases "split_cached cache chunks Map.empty [] Map.empty") auto
  from split_cached_result [OF s]
  have em: "\<forall>k. emap k =
          (if k \<in> (\<lambda>c. cm_chunk_id (c_metadata c)) ` set chunks \<and> cache k \<noteq> None then cache k
           else None)"
    and cm: "\<forall>t k. cmap t = Some k \<longrightarrow> cache k = None"
    by auto
  have "\<exists>emap2. lookup_all emap2 chunks = Inr vs \<and> (\<forall>k. (\<forall>t. cmap t \<noteq> Some k) \<longrightarrow> emap2 k = emap k)"
  proof (cases "texts = []")
    case True
    with assms s show ?thesis
      by (auto simp add: generate_embeddings_def)
  next
    case False
    with assms s obtain new_embeddings where enc: "encode texts = Inr new_embeddings"
      by (auto simp add: generate_embeddings_def split: sum.splits)
    obtain err emap2 cache2 where st:
      "store_new write cmap (zip texts new_embeddings) emap cache = (err, emap2, cache2)"
      by (cases "store_new write cmap (zip texts new_embeddings) emap cache") auto
    with assms s False enc have "lookup_all emap2 chunks = Inr vs"
      by (auto simp add: generate_embeddings_def split: option.splits)
    moreover have "\<forall>k. (\<forall>t. cmap t \<noteq> Some k) \<longrightarrow> emap2 k = emap k"
      using store_new_keeps [OF st] by blast
    ultimately show ?thesis by blast
  qed
  then obtain emap2 where l: "lookup_all emap2 chunks = Inr vs"
    and keep: "\<forall>k. (\<forall>t. cmap t \<noteq> Some k) \<longrightarrow> emap2 k = emap k"
    by blast
  from lookup_all_Inr [OF l] have len: "length vs = length chunks"
    and at: "\<forall>j < length chunks. emap2 (cm_chunk_id (c_metadata (chunks ! j))) = Some (vs ! j)"
    by auto
  have "vs ! j = v" if j: "j < length chunks"
    and c: "cache (cm_chunk_id (c_metadata (chunks ! j))) = Some v" for j v
  proof -
    let ?k = "cm_chunk_id (c_metadata (chunks ! j))"
    have "\<forall>t. cmap t \<noteq> Some ?k"
      using cm c by auto
    then have "emap2 ?k = emap ?k"
      using keep by blast
    also have "\<dots> = Some v"
      using em c j by auto
    finally show ?thesis
      using at j by auto
  qed
  with len show ?thesis by blast
qed

text \<open>
  C5 fails on the code: \<open>_generate_embeddings\<close> does not return one embedding per input
  chunk when two chunks that are not in the cache have the same text and different
  identifiers. \<open>chunks_to_embed_map\<close> is keyed by the text, so it keeps only the second
  identifier; the first one never enters \<open>embeddings_map\<close>, and the final list
  comprehension raises \<open>KeyError\<close>.
\<close>

theorem generate_embeddings_duplicate_text_fails:
  "returned (generate_embeddings example_encode disk_ok Map.empty duplicate_text_chunks)
     = Inl (KeyError ''id-page-2'')"
  by (simp add: generate_embeddings_def duplicate_text_chunks_def example_encode_def disk_ok_def
      save_embedding_def)

end
